theory Spec2Isabelle
  imports Main "HOL-Library.List_Lexorder" "HOL-Library.Char_ord"
begin

section \<open>Data model of the whole-program analyser\<close>

text \<open>
  A shallow embedding of \<^verbatim>\<open>src/optimize/wpa/Whole_program.cpp\<close>. Basic blocks are
  identified by their \<^verbatim>\<open>ID\<close>. The two ways the code aborts are values:
  \<^verbatim>\<open>phc_TODO ()\<close> is \<open>Unimplemented\<close>; a failed \<^verbatim>\<open>assert\<close> or checked downcast
  \<^verbatim>\<open>dyc<T>\<close> is \<open>Assertion_failed\<close>. Reading through a \<^verbatim>\<open>NULL\<close> block is
  \<open>Null_dereference\<close>, \<^verbatim>\<open>front ()\<close> of an empty list is \<open>Front_of_empty_list\<close>, and reading an iterator
  at the end of its list is \<open>Past_the_end\<close> (all three undefined in the source language, and not reached from \<^verbatim>\<open>run\<close> on a well-formed
  program).
\<close>

type_synonym bb = nat

datatype certainty = POSSIBLE | DEFINITE

datatype failure =
  Unimplemented | Assertion_failed | Null_dereference | Front_of_empty_list | Past_the_end

text \<open>MIR literals, as far as this file builds or inspects them (no real-valued literal
  is built here). \<^verbatim>\<open>INT\<close> is \<open>INT_lit\<close>.\<close>

datatype literal = BOOL bool | INT_lit int | NIL | STRING string

text \<open>\<^verbatim>\<open>Types\<close> is a set of type names.\<close>

type_synonym types = "string list"

text \<open>A lattice cell: \<^verbatim>\<open>TOP\<close>, \<^verbatim>\<open>BOTTOM\<close> or a cell with a value. A
  \<^verbatim>\<open>Literal_cell\<close> is \<open>Lattice_value\<close> at type \<open>literal\<close>, a \<^verbatim>\<open>Type_cell\<close> is
  \<open>Lattice_value\<close> at type \<open>types\<close>.\<close>

datatype 'v lattice_cell = TOP | BOTTOM | Lattice_value 'v

datatype abstract_value =
    Abstract_value "literal lattice_cell" "types lattice_cell"
  | From_literal literal
  | From_types types
  | Unknown_value

datatype path = Indexing path path | ST_path string | Index_path string

datatype index_node = Index_node string string

datatype storage_node = Storage_node (storage: string)

datatype alias_name = Alias_name string string

text \<open>The wildcard index; the comment in \<^verbatim>\<open>get_named_indices\<close> gives its text:
  \<^verbatim>\<open>"*" indicating it could be anything\<close>.\<close>

definition UNKNOWN :: string where
  "UNKNOWN = ''*''"

subsection \<open>The analysis protocol\<close>

text \<open>One constructor per virtual method of \<^verbatim>\<open>WPA\<close> that the analyser calls for its
  effect. A caller block can be \<^verbatim>\<open>NULL\<close> (for \<^verbatim>\<open>__MAIN__\<close>).\<close>

datatype wpa_call =
    Forward_bind "bb option" bb
  | Backward_bind "bb option" bb
  | Aggregate_results bb
  | Pull_init bb
  | Pull_first_pred bb bb
  | Pull_pred bb bb
  | Pull_finish bb
  | Kill_value bb alias_name
  | Assign_scalar bb alias_name alias_name abstract_value certainty
  | Assign_storage bb alias_name alias_name certainty
  | Assign_empty_array bb alias_name string certainty
  | Record_use bb alias_name certainty

text \<open>A run that aborts: the failure, and the calls that had been made to the analyses
  when it aborted (the \<open>trace\<close> of the state it aborted in).\<close>

type_synonym aborted = "failure \<times> (string \<times> wpa_call) list"

text \<open>An analysis: its registered name, what a call does to the results of the analyses
  (type \<open>'s\<close>: analyses read each other through the analyser), and its two queries.\<close>

record 's wpa =
  wpa_name :: string
  perform :: "wpa_call \<Rightarrow> 's \<Rightarrow> 's"
  solution_changed :: "bb \<Rightarrow> 's \<Rightarrow> bool"
  equals :: "'s \<Rightarrow> 's \<Rightarrow> bool"

text \<open>The analyser's state: the list \<^verbatim>\<open>analyses\<close>, the results they hold, and the
  sequence of calls made to them so far (analysis name, call).\<close>

record 's analysis_state =
  analyses :: "'s wpa list"
  sol :: 's
  trace :: "(string \<times> wpa_call) list"

text \<open>What this file uses and does not define: the queries of the aliasing, constant
  propagation and type inference analyses, the partition of \<^verbatim>\<open>Types\<close>, the helpers
  \<^verbatim>\<open>P\<close>, \<^verbatim>\<open>ST\<close>, \<^verbatim>\<open>VN\<close>, \<^verbatim>\<open>ABSVAL\<close>, \<^verbatim>\<open>BB_array_name\<close>, \<^verbatim>\<open>BB_object_name\<close>,
  \<^verbatim>\<open>RETNAME\<close>, \<^verbatim>\<open>MSN\<close>, \<^verbatim>\<open>PHP::get_superglobals\<close>, \<^verbatim>\<open>name ()\<close> of a node, the
  order of \<^verbatim>\<open>Set<Alias_name>\<close>, and the visitor's dispatch on a statement that is not
  a method invocation. They are parameters.\<close>

record 's env =
  P :: "string \<Rightarrow> string \<Rightarrow> path"
  ST :: "bb \<Rightarrow> string"
  VN :: "string \<Rightarrow> string \<Rightarrow> index_node"
  RETNAME :: string
  MSN :: string
  get_superglobals :: "string list"
  ABSVAL :: "alias_name \<Rightarrow> alias_name"
  BB_array_name :: "bb \<Rightarrow> alias_name"
  BB_object_name :: "bb \<Rightarrow> alias_name"
  index_name :: "index_node \<Rightarrow> alias_name"
  storage_name :: "storage_node \<Rightarrow> alias_name"
  alias_less :: "alias_name \<Rightarrow> alias_name \<Rightarrow> bool"
  get_references :: "'s \<Rightarrow> bb \<Rightarrow> index_node \<Rightarrow> certainty \<Rightarrow> index_node list"
  get_values :: "'s \<Rightarrow> bb \<Rightarrow> index_node \<Rightarrow> storage_node list"
  ccp_get_value :: "'s \<Rightarrow> bb \<Rightarrow> alias_name \<Rightarrow> literal lattice_cell"
  branch_known_true :: "'s \<Rightarrow> bb \<Rightarrow> alias_name \<Rightarrow> bool"
  branch_known_false :: "'s \<Rightarrow> bb \<Rightarrow> alias_name \<Rightarrow> bool"
  type_inf_get_value :: "'s \<Rightarrow> bb \<Rightarrow> alias_name \<Rightarrow> types lattice_cell"
  get_types :: "'s \<Rightarrow> bb \<Rightarrow> alias_name \<Rightarrow> types"
  get_scalar_types :: "types \<Rightarrow> types"
  get_array_types :: "types \<Rightarrow> types"
  get_object_types :: "types \<Rightarrow> types"
  get_value_as_string :: "literal \<Rightarrow> string"
  visit_other_statement :: "bb \<Rightarrow> 's analysis_state \<Rightarrow> aborted + 's analysis_state"

subsection \<open>Calling the analyses\<close>

definition call_wpa :: "wpa_call \<Rightarrow> 's wpa \<Rightarrow> 's analysis_state \<Rightarrow> 's analysis_state" where
  "call_wpa c w st =
     st\<lparr>sol := perform w c (sol st), trace := trace st @ [(wpa_name w, c)]\<rparr>"

text \<open>\<^verbatim>\<open>foreach_wpa (this) wpa->c\<close>\<close>

definition foreach_wpa :: "wpa_call \<Rightarrow> 's analysis_state \<Rightarrow> 's analysis_state" where
  "foreach_wpa c st = fold (call_wpa c) (analyses st) st"

text \<open>A \<^verbatim>\<open>foreach\<close> whose body can abort: the first failure ends the loop.\<close>

fun foreach :: "'a list \<Rightarrow> ('a \<Rightarrow> 'st \<Rightarrow> aborted + 'st) \<Rightarrow> 'st \<Rightarrow> aborted + 'st" where
  "foreach [] f s = Inr s"
| "foreach (x # xs) f s = (case f x s of Inl e \<Rightarrow> Inl e | Inr s' \<Rightarrow> foreach xs f s')"

text \<open>\<^verbatim>\<open>Set<T>::insert\<close>: a \<^verbatim>\<open>std::set\<close>, kept as the list of its elements in the
  order of the set; an element equivalent to one of the set is not inserted.\<close>

fun set_insert :: "('a \<Rightarrow> 'a \<Rightarrow> bool) \<Rightarrow> 'a \<Rightarrow> 'a list \<Rightarrow> 'a list" where
  "set_insert lt x [] = [x]"
| "set_insert lt x (y # ys) =
     (if lt x y then x # y # ys
      else if lt y x then y # set_insert lt x ys
      else y # ys)"

text \<open>\<^verbatim>\<open>lexical_cast<string> (bb->ID)\<close>: the decimal digits of a block's ID.\<close>

function lexical_cast :: "nat \<Rightarrow> string" where
  "lexical_cast n =
     (if n < 10 then [char_of (48 + n)]
      else lexical_cast (n div 10) @ [char_of (48 + n mod 10)])"
  by pat_completeness auto
termination
  by (relation "measure (\<lambda>n. n)") auto

declare lexical_cast.simps [simp del]

section \<open>The symbolic location resolver\<close>

definition get_string_values :: "'s env \<Rightarrow> 's analysis_state \<Rightarrow> bb \<Rightarrow> index_node \<Rightarrow> string list" where
  "get_string_values env st b index =
     (case ccp_get_value env (sol st) b (index_name env index) of
        TOP \<Rightarrow> ['''']
      | BOTTOM \<Rightarrow> [UNKNOWN]
      | Lattice_value v \<Rightarrow> [get_value_as_string env v])"

definition record_use :: "'s env \<Rightarrow> bb \<Rightarrow> index_node \<Rightarrow> 's analysis_state \<Rightarrow> 's analysis_state" where
  "record_use env b index st = foreach_wpa (Record_use b (index_name env index) POSSIBLE) st"

definition is_must :: "index_node list \<Rightarrow> failure + bool" where
  "is_must indices =
     (if indices = [] then Inl Assertion_failed else Inr (length indices = 1))"

text \<open>\<^verbatim>\<open>get_named_indices\<close>, \<^verbatim>\<open>kill_value\<close>, \<^verbatim>\<open>get_all_referenced_names\<close> and
  \<^verbatim>\<open>assign_empty_array\<close> call each other: resolving a path whose base points to a
  scalar creates an empty array at the base, which kills and resolves the base again.
  Every such call is on a part of the path, so \<open>get_named_indices\<close> is a primitive
  recursion over the path, and the bodies of the other three are first written over the
  resolution of their path (\<open>resolve\<close>, which is \<open>get_named_indices env b p\<close>). Where
  \<^verbatim>\<open>record_uses\<close> is not passed in the source, its default \<open>False\<close> is written out.\<close>

type_synonym 's resolution =
  "bool \<Rightarrow> 's analysis_state \<Rightarrow> aborted + (index_node list \<times> 's analysis_state)"

definition kill_value_body ::
    "'s env \<Rightarrow> bb \<Rightarrow> 's resolution \<Rightarrow> 's analysis_state \<Rightarrow> aborted + (certainty \<times> 's analysis_state)" where
  "kill_value_body env b resolve st =
     (case resolve False st of
        Inl e \<Rightarrow> Inl e
      | Inr (lhss, st1) \<Rightarrow>
         (case is_must lhss of
            Inl e \<Rightarrow> Inl (e, trace st1)
          | Inr must \<Rightarrow>
              if \<not> must then Inr (POSSIBLE, st1)
              else
                let lhs = hd lhss;
                    st2 = fold (\<lambda>ref. foreach_wpa (Kill_value b (index_name env ref)))
                            (get_references env (sol st1) b lhs DEFINITE) st1;
                    st3 = foreach_wpa (Kill_value b (index_name env lhs)) st2
                in Inr (DEFINITE, st3)))"

definition get_all_referenced_names_body ::
    "'s env \<Rightarrow> bb \<Rightarrow> 's resolution \<Rightarrow> certainty \<Rightarrow> bool \<Rightarrow> 's analysis_state
      \<Rightarrow> aborted + (alias_name list \<times> 's analysis_state)" where
  "get_all_referenced_names_body env b resolve cert record_uses st =
     (case resolve record_uses st of
        Inl e \<Rightarrow> Inl e
      | Inr (lhss, st1) \<Rightarrow>
          Inr (fold
                 (\<lambda>lhs names.
                    fold (\<lambda>ref. set_insert (alias_less env) (index_name env ref))
                      (get_references env (sol st1) b lhs cert @ [lhs]) names)
                 lhss [],
               st1))"

definition assign_empty_array_body ::
    "'s env \<Rightarrow> bb \<Rightarrow> 's resolution \<Rightarrow> string \<Rightarrow> 's analysis_state \<Rightarrow> aborted + 's analysis_state" where
  "assign_empty_array_body env b resolve unique_name st =
     (case kill_value_body env b resolve st of
        Inl e \<Rightarrow> Inl e
      | Inr (cert, st1) \<Rightarrow>
         (case get_all_referenced_names_body env b resolve cert False st1 of
            Inl e \<Rightarrow> Inl e
          | Inr (names, st2) \<Rightarrow>
              Inr (fold (\<lambda>name. foreach_wpa (Assign_empty_array b name unique_name cert))
                     names st2)))"

text \<open>The storage nodes of the base \<^verbatim>\<open>p->lhs\<close> when it is not an \<^verbatim>\<open>ST_path\<close>.\<close>

definition pointed_to_storages ::
    "'s env \<Rightarrow> bb \<Rightarrow> 's resolution \<Rightarrow> bool \<Rightarrow> 's analysis_state
      \<Rightarrow> aborted + (string list \<times> 's analysis_state)" where
  "pointed_to_storages env b resolve record_uses st =
     (case resolve record_uses st of
        Inl e \<Rightarrow> Inl e
      | Inr (indices, st1) \<Rightarrow>
          foreach indices
            (\<lambda>st_index (lhss0, s0).
               foreach (get_values env (sol s0) b st_index)
                 (\<lambda>pointed_to (lhss, s).
                    if storage pointed_to = ''SCALAR''
                    then (case assign_empty_array_body env b resolve (lexical_cast b) s of
                            Inl e \<Rightarrow> Inl e
                          | Inr s' \<Rightarrow> Inr (set_insert (<) (lexical_cast b) lhss, s'))
                    else Inr (set_insert (<) (storage pointed_to) lhss, s))
                 (lhss0, s0))
            ([], st1))"

text \<open>The field names of the index \<^verbatim>\<open>p->rhs\<close> when it is not an \<^verbatim>\<open>Index_path\<close>.\<close>

definition looked_up_fields ::
    "'s env \<Rightarrow> bb \<Rightarrow> 's resolution \<Rightarrow> bool \<Rightarrow> 's analysis_state
      \<Rightarrow> aborted + (string list \<times> 's analysis_state)" where
  "looked_up_fields env b resolve record_uses st =
     (case resolve record_uses st of
        Inl e \<Rightarrow> Inl e
      | Inr (field_indices, st1) \<Rightarrow>
          Inr (fold
                 (\<lambda>field_index (rhss, s).
                    let s' = record_use env b field_index s
                    in (fold (set_insert (<)) (get_string_values env s' b field_index) rhss, s'))
                 field_indices ([], st1)))"

text \<open>\<^verbatim>\<open>assert (rhss.size ())\<close> and the cross product of the two sets.\<close>

definition combine_results ::
    "'s env \<Rightarrow> bb \<Rightarrow> bool \<Rightarrow> string list \<Rightarrow> string list \<Rightarrow> 's analysis_state
      \<Rightarrow> aborted + (index_node list \<times> 's analysis_state)" where
  "combine_results env b record_uses lhss rhss st =
     (if rhss = [] then Inl (Assertion_failed, trace st)
      else
        let result = concat (map (\<lambda>lhs. map (\<lambda>rhs. Index_node lhs rhs) rhss) lhss)
        in Inr (result, if record_uses then fold (record_use env b) result st else st))"

primrec get_named_indices :: "'s env \<Rightarrow> bb \<Rightarrow> path \<Rightarrow> 's resolution" where
  "get_named_indices env b (ST_path n) = (\<lambda>record_uses st. Inl (Assertion_failed, trace st))"
| "get_named_indices env b (Index_path n) = (\<lambda>record_uses st. Inl (Assertion_failed, trace st))"
| "get_named_indices env b (Indexing pl pr) =
     (\<lambda>record_uses st.
        case
          (case pl of
             ST_path n \<Rightarrow> Inr (set_insert (<) n [], st)
           | _ \<Rightarrow> pointed_to_storages env b (get_named_indices env b pl) record_uses st)
        of
          Inl e \<Rightarrow> Inl e
        | Inr (lhss, st1) \<Rightarrow>
           (case
              (case pr of
                 Index_path n \<Rightarrow> Inr (set_insert (<) n [], st1)
               | _ \<Rightarrow> looked_up_fields env b (get_named_indices env b pr) record_uses st1)
            of
              Inl e \<Rightarrow> Inl e
            | Inr (rhss, st2) \<Rightarrow> combine_results env b record_uses lhss rhss st2))"

definition kill_value ::
    "'s env \<Rightarrow> bb \<Rightarrow> path \<Rightarrow> 's analysis_state \<Rightarrow> aborted + (certainty \<times> 's analysis_state)" where
  "kill_value env b plhs = kill_value_body env b (get_named_indices env b plhs)"

definition get_all_referenced_names ::
    "'s env \<Rightarrow> bb \<Rightarrow> path \<Rightarrow> certainty \<Rightarrow> bool \<Rightarrow> 's analysis_state
      \<Rightarrow> aborted + (alias_name list \<times> 's analysis_state)" where
  "get_all_referenced_names env b p =
     get_all_referenced_names_body env b (get_named_indices env b p)"

definition assign_empty_array ::
    "'s env \<Rightarrow> bb \<Rightarrow> path \<Rightarrow> string \<Rightarrow> 's analysis_state \<Rightarrow> aborted + 's analysis_state" where
  "assign_empty_array env b plhs = assign_empty_array_body env b (get_named_indices env b plhs)"

subsection \<open>The assignments\<close>

definition get_abstract_value :: "'s env \<Rightarrow> 's analysis_state \<Rightarrow> bb \<Rightarrow> alias_name \<Rightarrow> abstract_value" where
  "get_abstract_value env st b name =
     Abstract_value (ccp_get_value env (sol st) b name) (type_inf_get_value env (sol st) b name)"

text \<open>\<^verbatim>\<open>phc_TODO ()\<close> is the first statement of \<^verbatim>\<open>assign_by_ref\<close>: nothing after it
  runs.\<close>

definition assign_by_ref :: "'s env \<Rightarrow> bb \<Rightarrow> path \<Rightarrow> path \<Rightarrow> 's analysis_state \<Rightarrow> aborted + 's analysis_state" where
  "assign_by_ref env b plhs prhs st = Inl (Unimplemented, trace st)"

definition assign_scalar :: "'s env \<Rightarrow> bb \<Rightarrow> path \<Rightarrow> literal \<Rightarrow> 's analysis_state \<Rightarrow> aborted + 's analysis_state" where
  "assign_scalar env b plhs lit st =
     (case kill_value env b plhs st of
        Inl e \<Rightarrow> Inl e
      | Inr (cert, st1) \<Rightarrow>
         (case get_all_referenced_names env b plhs cert False st1 of
            Inl e \<Rightarrow> Inl e
          | Inr (names, st2) \<Rightarrow>
              Inr (fold
                     (\<lambda>name. foreach_wpa
                        (Assign_scalar b name (ABSVAL env name) (From_literal lit) POSSIBLE))
                     names st2)))"

text \<open>The body of the two loops of \<^verbatim>\<open>assign_typed\<close>, for one name and one analysis.\<close>

definition assign_typed_to ::
    "'s env \<Rightarrow> bb \<Rightarrow> types \<Rightarrow> alias_name \<Rightarrow> 's wpa \<Rightarrow> 's analysis_state \<Rightarrow> aborted + 's analysis_state" where
  "assign_typed_to env b tys name w s =
     (let scalars = get_scalar_types env tys;
          array = get_array_types env tys;
          objects = get_object_types env tys;
          s1 = (if scalars \<noteq> []
                then call_wpa (Assign_scalar b name (ABSVAL env name) (From_types scalars) POSSIBLE) w s
                else s)
      in if array \<noteq> [] then Inl (Unimplemented, trace s1)
         else if objects \<noteq> [] then Inl (Unimplemented, trace s1)
         else Inr s1)"

definition assign_typed :: "'s env \<Rightarrow> bb \<Rightarrow> path \<Rightarrow> types \<Rightarrow> 's analysis_state \<Rightarrow> aborted + 's analysis_state" where
  "assign_typed env b plhs tys st =
     (case kill_value env b plhs st of
        Inl e \<Rightarrow> Inl e
      | Inr (cert, st1) \<Rightarrow>
         (case get_all_referenced_names env b plhs cert False st1 of
            Inl e \<Rightarrow> Inl e
          | Inr (names, st2) \<Rightarrow>
              foreach names
                (\<lambda>name s. foreach (analyses s) (assign_typed_to env b tys name) s) st2))"

definition assign_unknown :: "'s env \<Rightarrow> bb \<Rightarrow> path \<Rightarrow> 's analysis_state \<Rightarrow> aborted + 's analysis_state" where
  "assign_unknown env b plhs st =
     (case kill_value env b plhs st of
        Inl e \<Rightarrow> Inl e
      | Inr (cert, st1) \<Rightarrow>
         (case get_all_referenced_names env b plhs cert False st1 of
            Inl e \<Rightarrow> Inl e
          | Inr (names, st2) \<Rightarrow>
              Inr (fold
                     (\<lambda>name s. fold
                        (\<lambda>w s'.
                           call_wpa (Assign_storage b name (BB_object_name env b) POSSIBLE) w
                             (call_wpa (Assign_storage b name (BB_array_name env b) POSSIBLE) w
                                (call_wpa (Assign_scalar b name (ABSVAL env name) Unknown_value POSSIBLE) w s')))
                        (analyses s) s)
                     names st2)))"

text \<open>The body of the four loops of \<^verbatim>\<open>assign_by_copy\<close>, for one name, one analysis and
  one storage node \<^verbatim>\<open>st\<close> of the right-hand side. On \<^verbatim>\<open>bool\<close>, \<^verbatim>\<open>^\<close> is \<open>\<noteq>\<close>.\<close>

definition copy_value ::
    "'s env \<Rightarrow> bb \<Rightarrow> alias_name \<Rightarrow> 's wpa \<Rightarrow> storage_node \<Rightarrow> 's analysis_state \<Rightarrow> aborted + 's analysis_state" where
  "copy_value env b name w stn s =
     (let tys = get_types env (sol s) b (storage_name env stn);
          scalars = get_scalar_types env tys;
          array = get_array_types env tys;
          objects = get_object_types env tys
      in if \<not> (((scalars \<noteq> []) \<noteq> (array \<noteq> [])) \<noteq> (objects \<noteq> []))
         then Inl (Assertion_failed, trace s)
         else
           let s1 = (if scalars \<noteq> []
                     then call_wpa
                            (Assign_scalar b name (ABSVAL env name)
                               (get_abstract_value env s b (storage_name env stn)) POSSIBLE) w s
                     else s)
           in if array \<noteq> [] then Inl (Unimplemented, trace s1)
              else if objects \<noteq> [] then Inl (Unimplemented, trace s1)
              else Inr s1)"

definition assign_by_copy :: "'s env \<Rightarrow> bb \<Rightarrow> path \<Rightarrow> path \<Rightarrow> 's analysis_state \<Rightarrow> aborted + 's analysis_state" where
  "assign_by_copy env b plhs prhs st =
     (case kill_value env b plhs st of
        Inl e \<Rightarrow> Inl e
      | Inr (cert, st1) \<Rightarrow>
         (case get_named_indices env b prhs True st1 of
            Inl e \<Rightarrow> Inl e
          | Inr (rhss, st2) \<Rightarrow>
             (case get_all_referenced_names env b plhs cert False st2 of
                Inl e \<Rightarrow> Inl e
              | Inr (names, st3) \<Rightarrow>
                  foreach names
                    (\<lambda>name s0. foreach (analyses s0)
                       (\<lambda>w s1. foreach rhss
                          (\<lambda>rhs s2. foreach (get_values env (sol s2) b rhs)
                             (copy_value env b name w) s2)
                          s1)
                       s0)
                    st3)))"

section \<open>Methods, forward bind and backward bind\<close>

datatype rvalue = VARIABLE_NAME string | Literal literal

record actual_parameter =
  is_ref :: bool
  rvalue :: rvalue

text \<open>What binding reads of a \<^verbatim>\<open>Method_info\<close>; \<open>default_param i\<close> says that
  \<^verbatim>\<open>info->default_param (i)\<close> is not \<^verbatim>\<open>NULL\<close>.\<close>

record method_info =
  info_name :: string
  param_by_ref :: "nat \<Rightarrow> bool"
  param_name :: "nat \<Rightarrow> string"
  default_param :: "nat \<Rightarrow> bool"
  return_by_ref :: bool

definition apply_modelled_function ::
    "'s env \<Rightarrow> ('z method_info_scheme) \<Rightarrow> bb \<Rightarrow> 's analysis_state \<Rightarrow> aborted + 's analysis_state" where
  "apply_modelled_function env info b st =
     (let ret_name = P env (ST env b) (RETNAME env)
      in if info_name info = ''strlen'' then assign_typed env b ret_name [''int''] st
         else if info_name info = ''dechex'' then assign_typed env b ret_name [''string''] st
         else if info_name info = ''print'' then assign_scalar env b ret_name (INT_lit 1) st
         else if info_name info = ''is_array'' then assign_typed env b ret_name [''bool''] st
         else if info_name info = ''is_object'' then assign_typed env b ret_name [''bool''] st
         else if info_name info = ''trigger_error'' then assign_typed env b ret_name [''bool''] st
         else Inl (Unimplemented, trace st))"

definition init_superglobals :: "'s env \<Rightarrow> bb \<Rightarrow> 's analysis_state \<Rightarrow> aborted + 's analysis_state" where
  "init_superglobals env entry st =
     (case assign_empty_array env entry (P env (MSN env) ''GLOBALS'') (MSN env) st of
        Inl e \<Rightarrow> Inl e
      | Inr st1 \<Rightarrow>
         (case foreach (get_superglobals env)
                 (\<lambda>sg s.
                    if sg = ''GLOBALS'' then Inr s
                    else (case assign_empty_array env entry (P env (MSN env) sg) sg s of
                            Inl e \<Rightarrow> Inl e
                          | Inr s' \<Rightarrow> assign_typed env entry (P env sg UNKNOWN) [''string''] s'))
                 st1 of
            Inl e \<Rightarrow> Inl e
          | Inr st2 \<Rightarrow>
             (case assign_unknown env entry (P env ''_SESSION'' UNKNOWN) st2 of
                Inl e \<Rightarrow> Inl e
              | Inr st3 \<Rightarrow>
                 (case assign_typed env entry (P env (MSN env) ''argc'') [''int''] st3 of
                    Inl e \<Rightarrow> Inl e
                  | Inr st4 \<Rightarrow>
                     (case assign_empty_array env entry (P env (MSN env) ''argv'') ''argv'' st4 of
                        Inl e \<Rightarrow> Inl e
                      | Inr st5 \<Rightarrow>
                         (case assign_typed env entry (P env ''argv'' UNKNOWN) [''string''] st5 of
                            Inl e \<Rightarrow> Inl e
                          | Inr st6 \<Rightarrow>
                              assign_typed env entry (P env ''argv'' ''0'') [''string''] st6))))))"

text \<open>One round of the loop of \<^verbatim>\<open>forward_bind\<close> over the actual parameters; \<open>i\<close> is the
  position of \<open>ap\<close>.\<close>

definition bind_actual ::
    "'s env \<Rightarrow> ('z method_info_scheme) \<Rightarrow> bb option \<Rightarrow> bb \<Rightarrow> nat \<Rightarrow> actual_parameter
      \<Rightarrow> 's analysis_state \<Rightarrow> aborted + 's analysis_state" where
  "bind_actual env info caller entry i ap st =
     (if is_ref ap \<or> param_by_ref info i then
        (case (caller, rvalue ap) of
           (None, _) \<Rightarrow> Inl (Null_dereference, trace st)
         | (Some c, Literal l) \<Rightarrow> Inl (Assertion_failed, trace st)
         | (Some c, VARIABLE_NAME v) \<Rightarrow>
             assign_by_ref env entry (P env (ST env entry) (param_name info i)) (P env (ST env c) v) st)
      else
        (case rvalue ap of
           VARIABLE_NAME v \<Rightarrow>
             (case caller of
                None \<Rightarrow> Inl (Null_dereference, trace st)
              | Some c \<Rightarrow>
                  assign_by_copy env entry (P env (ST env entry) (param_name info i))
                    (P env (ST env c) v) st)
         | Literal l \<Rightarrow>
             assign_scalar env entry (P env (ST env entry) (param_name info i)) l st))"

fun bind_actuals ::
    "'s env \<Rightarrow> ('z method_info_scheme) \<Rightarrow> bb option \<Rightarrow> bb \<Rightarrow> nat \<Rightarrow> actual_parameter list
      \<Rightarrow> 's analysis_state \<Rightarrow> aborted + (nat \<times> 's analysis_state)" where
  "bind_actuals env info caller entry i [] st = Inr (i, st)"
| "bind_actuals env info caller entry i (ap # aps) st =
     (case bind_actual env info caller entry i ap st of
        Inl e \<Rightarrow> Inl e
      | Inr st' \<Rightarrow> bind_actuals env info caller entry (Suc i) aps st')"

definition forward_bind ::
    "'s env \<Rightarrow> ('z method_info_scheme) \<Rightarrow> bb option \<Rightarrow> bb \<Rightarrow> actual_parameter list
      \<Rightarrow> 's analysis_state \<Rightarrow> aborted + 's analysis_state" where
  "forward_bind env info caller entry actuals st =
     (case (if caller = None
            then init_superglobals env entry (foreach_wpa (Forward_bind caller entry) st)
            else Inr (foreach_wpa (Forward_bind caller entry) st)) of
        Inl e \<Rightarrow> Inl e
      | Inr st1 \<Rightarrow>
         (case bind_actuals env info caller entry 0 actuals st1 of
            Inl e \<Rightarrow> Inl e
          | Inr (i, st2) \<Rightarrow>
              if default_param info i then Inl (Unimplemented, trace st2)
              else Inr (foreach_wpa (Aggregate_results entry) st2)))"

definition backward_bind ::
    "'s env \<Rightarrow> ('z method_info_scheme) \<Rightarrow> bb option \<Rightarrow> bb \<Rightarrow> string option
      \<Rightarrow> 's analysis_state \<Rightarrow> aborted + 's analysis_state" where
  "backward_bind env info caller exit lhs st =
     (case (case lhs of
              None \<Rightarrow> Inr st
            | Some v \<Rightarrow>
               (case caller of
                  None \<Rightarrow> Inl (Null_dereference, trace st)
                | Some c \<Rightarrow>
                    if return_by_ref info
                    then assign_by_ref env exit (P env (ST env c) v) (P env (ST env exit) (RETNAME env)) st
                    else assign_by_copy env exit (P env (ST env c) v) (P env (ST env exit) (RETNAME env)) st)) of
        Inl e \<Rightarrow> Inl e
      | Inr st1 \<Rightarrow> Inr (foreach_wpa (Backward_bind caller exit) st1))"

section \<open>Control-flow graphs and the intraprocedural engine\<close>

datatype edge = Edge (edge_id: nat) (get_source: bb) (get_target: bb)

datatype method_name = METHOD_NAME string | Variable_method string

record method_invocation =
  target :: "string option"
  method_name :: method_name
  actual_parameters :: "actual_parameter list"

text \<open>A statement either reaches \<^verbatim>\<open>visit_method_invocation\<close> (an \<^verbatim>\<open>Eval_expr\<close> of a
  method invocation, with no left-hand side, or an \<^verbatim>\<open>Assign_var\<close> of one, with its
  left-hand side), or it is another statement, whose visit is a parameter.\<close>

datatype statement = Invoke "string option" method_invocation | Other_statement

datatype basic_block =
    Entry_block | Exit_block | Empty_block | Branch_block string | Statement_block statement

text \<open>The interface of \<^verbatim>\<open>CFG\<close> and of its blocks that this file uses.\<close>

record cfg =
  get_entry_bb :: bb
  get_exit_bb :: bb
  get_entry_edge :: edge
  get_all_edges :: "edge list"
  get_all_bbs :: "bb list"
  block :: "bb \<Rightarrow> basic_block"
  get_successor_edges :: "bb \<Rightarrow> edge list"
  get_predecessor_edges :: "bb \<Rightarrow> edge list"
  get_true_successor_edge :: "bb \<Rightarrow> edge"
  get_false_successor_edge :: "bb \<Rightarrow> edge"

record user_method_info = method_info +
  cfg :: cfg
  side_effecting :: bool

record summary_method_info = method_info +
  get_cfg :: cfg
  get_fake_bb :: bb

text \<open>What \<^verbatim>\<open>Oracle::get_method_info\<close> returns; \<^verbatim>\<open>has_implementation ()\<close> holds of a
  user method.\<close>

datatype any_method_info =
    User_method_info user_method_info
  | Summary_method_info summary_method_info

type_synonym method_infos = "string \<Rightarrow> any_method_info option"

text \<open>The state of an analysis run: the analyser, and the flag \<^verbatim>\<open>is_executable\<close> of
  every edge of the graph of every method (a method has one graph, shared by all the
  contexts it is analysed in).\<close>

record 's engine_state =
  an :: "'s analysis_state"
  is_executable :: "string \<Rightarrow> edge \<Rightarrow> bool"

text \<open>A run that does not return within its fuel is \<open>None\<close>.\<close>

type_synonym 'a run = "(aborted + 'a) option"

definition and_then :: "'a run \<Rightarrow> ('a \<Rightarrow> 'b run) \<Rightarrow> 'b run" where
  "and_then m f = (case m of None \<Rightarrow> None | Some (Inl e) \<Rightarrow> Some (Inl e) | Some (Inr x) \<Rightarrow> f x)"

definition on_an ::
    "('s analysis_state \<Rightarrow> aborted + 's analysis_state) \<Rightarrow> 's engine_state \<Rightarrow> 's engine_state run" where
  "on_an f st = Some (case f (an st) of Inl e \<Rightarrow> Inl e | Inr a \<Rightarrow> Inr (st\<lparr>an := a\<rparr>))"

definition set_executable :: "string \<Rightarrow> edge \<Rightarrow> bool \<Rightarrow> 's engine_state \<Rightarrow> 's engine_state" where
  "set_executable m e v st =
     st\<lparr>is_executable := (is_executable st)(m := (is_executable st m)(e := v))\<rparr>"

subsection \<open>Pulling the results of the predecessors\<close>

text \<open>The loop of \<^verbatim>\<open>pull_results\<close> over the predecessor edges, for one analysis;
  \<open>executable\<close> gives the flags of the edges.\<close>

fun pull_preds ::
    "'s wpa \<Rightarrow> bb \<Rightarrow> (edge \<Rightarrow> bool) \<Rightarrow> bool \<Rightarrow> edge list \<Rightarrow> 's analysis_state \<Rightarrow> 's analysis_state" where
  "pull_preds w b executable first [] st = st"
| "pull_preds w b executable first (pred # preds) st =
     (if \<not> executable pred then pull_preds w b executable first preds st
      else if first
      then pull_preds w b executable False preds (call_wpa (Pull_first_pred b (get_source pred)) w st)
      else pull_preds w b executable first preds (call_wpa (Pull_pred b (get_source pred)) w st))"

text \<open>The body of the \<^verbatim>\<open>foreach_wpa\<close> loop of \<^verbatim>\<open>pull_results\<close>, for one analysis.\<close>

definition pull_analysis ::
    "bb \<Rightarrow> edge list \<Rightarrow> (edge \<Rightarrow> bool) \<Rightarrow> 's wpa \<Rightarrow> 's analysis_state \<Rightarrow> 's analysis_state" where
  "pull_analysis b predecessor_edges executable w st =
     call_wpa (Pull_finish b) w
       (pull_preds w b executable True predecessor_edges (call_wpa (Pull_init b) w st))"

definition pull_results ::
    "bb \<Rightarrow> edge list \<Rightarrow> (edge \<Rightarrow> bool) \<Rightarrow> 's analysis_state \<Rightarrow> 's analysis_state" where
  "pull_results b predecessor_edges executable st =
     fold (pull_analysis b predecessor_edges executable) (analyses st) st"

subsection \<open>Blocks\<close>

text \<open>An invocation from a block: \<^verbatim>\<open>invoke_method\<close>, which comes back to the engine.\<close>

type_synonym 's invoker =
  "method_invocation \<Rightarrow> bb option \<Rightarrow> string option \<Rightarrow> 's engine_state \<Rightarrow> 's engine_state run"

text \<open>\<^verbatim>\<open>visit_block\<close>: the visitor's dispatch to \<^verbatim>\<open>visit_branch_block\<close>,
  \<^verbatim>\<open>visit_eval_expr\<close> and \<^verbatim>\<open>visit_assign_var\<close> of this file; entry, exit and empty
  blocks have no visit function here.\<close>

definition visit_block :: "'s env \<Rightarrow> 's invoker \<Rightarrow> cfg \<Rightarrow> bb \<Rightarrow> 's engine_state \<Rightarrow> 's engine_state run" where
  "visit_block env invoke g b st =
     (case block g b of
        Branch_block v \<Rightarrow> Some (Inr (st\<lparr>an := record_use env b (VN env (ST env b) v) (an st)\<rparr>))
      | Statement_block (Invoke lhs mi) \<Rightarrow> invoke mi (Some b) lhs st
      | Statement_block Other_statement \<Rightarrow> on_an (visit_other_statement env b) st
      | _ \<Rightarrow> Some (Inr st))"

definition analyse_block ::
    "'s env \<Rightarrow> 's invoker \<Rightarrow> string \<Rightarrow> cfg \<Rightarrow> bb \<Rightarrow> 's engine_state \<Rightarrow> (bool \<times> 's engine_state) run" where
  "analyse_block env invoke m g b st =
     and_then
       (visit_block env invoke g b
          (st\<lparr>an := pull_results b (get_predecessor_edges g b) (is_executable st m) (an st)\<rparr>))
       (\<lambda>st1.
          let st2 = st1\<lparr>an := foreach_wpa (Aggregate_results b) (an st1)\<rparr>
          in Some (Inr (list_ex (\<lambda>w. solution_changed w b (sol (an st2))) (analyses (an st2)), st2)))"

definition get_branch_successors :: "'s env \<Rightarrow> cfg \<Rightarrow> bb \<Rightarrow> string \<Rightarrow> 's analysis_state \<Rightarrow> edge list" where
  "get_branch_successors env g b v st =
     (let cond = index_name env (VN env (ST env b) v)
      in (if \<not> branch_known_true env (sol st) b cond then [get_false_successor_edge g b] else [])
         @ (if \<not> branch_known_false env (sol st) b cond then [get_true_successor_edge g b] else []))"

text \<open>\<^verbatim>\<open>// Add next block(s)\<close>: the edges pushed after a changed target \<open>b\<close>.\<close>

definition next_edges :: "'s env \<Rightarrow> cfg \<Rightarrow> bb \<Rightarrow> 's analysis_state \<Rightarrow> aborted + edge list" where
  "next_edges env g b st =
     (case block g b of
        Branch_block v \<Rightarrow> Inr (get_branch_successors env g b v st)
      | Exit_block \<Rightarrow> Inr []
      | _ \<Rightarrow> (case get_successor_edges g b of
                [] \<Rightarrow> Inl (Front_of_empty_list, trace st)
              | e # _ \<Rightarrow> Inr [e]))"

subsection \<open>The worklist\<close>

text \<open>One round of the \<^verbatim>\<open>while\<close> loop of \<^verbatim>\<open>analyse_function\<close>: \<open>e\<close> is the front of the
  worklist and \<open>wl\<close> the rest.\<close>

definition worklist_step ::
    "'s env \<Rightarrow> 's invoker \<Rightarrow> string \<Rightarrow> cfg \<Rightarrow> edge \<Rightarrow> edge list \<Rightarrow> 's engine_state
      \<Rightarrow> (edge list \<times> 's engine_state) run" where
  "worklist_step env invoke m g e wl st =
     (let changed0 = (is_executable st m e = False)
      in and_then (analyse_block env invoke m g (get_target e) (set_executable m e True st))
           (\<lambda>(changed1, st1).
              if changed0 \<or> changed1
              then (case next_edges env g (get_target e) (an st1) of
                      Inl f \<Rightarrow> Some (Inl f)
                    | Inr es \<Rightarrow> Some (Inr (wl @ es, st1)))
              else Some (Inr (wl, st1))))"

fun worklist ::
    "'s env \<Rightarrow> 's invoker \<Rightarrow> string \<Rightarrow> cfg \<Rightarrow> nat \<Rightarrow> edge list \<Rightarrow> 's engine_state \<Rightarrow> 's engine_state run" where
  "worklist env invoke m g fuel [] st = Some (Inr st)"
| "worklist env invoke m g 0 (e # wl) st = None"
| "worklist env invoke m g (Suc fuel) (e # wl) st =
     and_then (worklist_step env invoke m g e wl st)
       (\<lambda>(wl', st'). worklist env invoke m g fuel wl' st')"

text \<open>\<^verbatim>\<open>foreach (Edge* e, *cfg->get_all_edges ()) e->is_executable = false\<close>\<close>

definition reset_edges :: "string \<Rightarrow> cfg \<Rightarrow> 's engine_state \<Rightarrow> 's engine_state" where
  "reset_edges m g st = fold (\<lambda>e. set_executable m e False) (get_all_edges g) st"

definition analyse_function_body ::
    "'s env \<Rightarrow> 's invoker \<Rightarrow> nat \<Rightarrow> user_method_info \<Rightarrow> bb option \<Rightarrow> actual_parameter list
      \<Rightarrow> string option \<Rightarrow> 's engine_state \<Rightarrow> 's engine_state run" where
  "analyse_function_body env invoke fuel info caller actuals lhs st =
     and_then
       (on_an (forward_bind env info caller (get_entry_bb (cfg info)) actuals)
          (reset_edges (info_name info) (cfg info) st))
       (\<lambda>st1.
          and_then
            (worklist env invoke (info_name info) (cfg info) fuel [get_entry_edge (cfg info)] st1)
            (on_an (backward_bind env info caller (get_exit_bb (cfg info)) lhs)))"

definition analyse_summary ::
    "'s env \<Rightarrow> summary_method_info \<Rightarrow> bb option \<Rightarrow> actual_parameter list \<Rightarrow> string option
      \<Rightarrow> 's engine_state \<Rightarrow> 's engine_state run" where
  "analyse_summary env info caller actuals lhs st =
     (let g = get_cfg info; fake = get_fake_bb info; m = info_name info
      in and_then (on_an (forward_bind env info caller (get_entry_bb g) actuals) st)
           (\<lambda>st1.
              and_then
                (on_an (apply_modelled_function env info fake)
                   (st1\<lparr>an := pull_results fake (get_predecessor_edges g fake) (is_executable st1 m)
                                (foreach_wpa (Aggregate_results (get_entry_bb g)) (an st1))\<rparr>))
                (\<lambda>st2.
                   on_an (backward_bind env info caller (get_exit_bb g) lhs)
                     (st2\<lparr>an := pull_results (get_exit_bb g) (get_predecessor_edges g (get_exit_bb g))
                                  (is_executable st2 m)
                                  (foreach_wpa (Aggregate_results fake) (an st2))\<rparr>))))"

text \<open>\<^verbatim>\<open>get_possible_receivers\<close>, \<^verbatim>\<open>invoke_method\<close> and \<^verbatim>\<open>analyse_method_info\<close>; the list
  of receivers has one element.\<close>

definition get_possible_receivers :: "method_infos \<Rightarrow> method_invocation \<Rightarrow> failure + any_method_info list" where
  "get_possible_receivers orc mi =
     (if target mi \<noteq> None then Inl Unimplemented
      else (case method_name mi of
              Variable_method v \<Rightarrow> Inl Unimplemented
            | METHOD_NAME name \<Rightarrow>
               (case orc name of
                  None \<Rightarrow> Inl Unimplemented
                | Some info \<Rightarrow> Inr [info])))"

definition analyse_method_info ::
    "'s env \<Rightarrow> 's invoker \<Rightarrow> nat \<Rightarrow> any_method_info \<Rightarrow> bb option \<Rightarrow> actual_parameter list
      \<Rightarrow> string option \<Rightarrow> 's engine_state \<Rightarrow> 's engine_state run" where
  "analyse_method_info env invoke fuel method_info caller actuals lhs st =
     (case method_info of
        User_method_info info \<Rightarrow> analyse_function_body env invoke fuel info caller actuals lhs st
      | Summary_method_info info \<Rightarrow> analyse_summary env info caller actuals lhs st)"

fun foreach_run :: "'a list \<Rightarrow> ('a \<Rightarrow> 'st \<Rightarrow> 'st run) \<Rightarrow> 'st \<Rightarrow> 'st run" where
  "foreach_run [] f s = Some (Inr s)"
| "foreach_run (x # xs) f s = and_then (f x s) (foreach_run xs f)"

text \<open>The fuel bounds the depth of the nested invocations and the rounds of each
  worklist.\<close>

primrec invoke_method :: "'s env \<Rightarrow> method_infos \<Rightarrow> nat \<Rightarrow> 's invoker" where
  "invoke_method env orc 0 mi caller lhs st = None"
| "invoke_method env orc (Suc fuel) mi caller lhs st =
     (case get_possible_receivers orc mi of
        Inl e \<Rightarrow> Some (Inl (e, trace (an st)))
      | Inr receivers \<Rightarrow>
          if length receivers > 1 then Some (Inl (Unimplemented, trace (an st)))
          else foreach_run receivers
                 (\<lambda>receiver.
                    analyse_method_info env (invoke_method env orc fuel) fuel receiver caller
                      (actual_parameters mi) lhs)
                 st)"

definition analyse_function ::
    "'s env \<Rightarrow> method_infos \<Rightarrow> nat \<Rightarrow> user_method_info \<Rightarrow> bb option \<Rightarrow> actual_parameter list
      \<Rightarrow> string option \<Rightarrow> 's engine_state \<Rightarrow> 's engine_state run" where
  "analyse_function env orc fuel = analyse_function_body env (invoke_method env orc fuel) fuel"

section \<open>The whole-program driver\<close>















section \<open>Notions used in the statements\<close>

text \<open>The calls one analysis receives while the results of the predecessors with the
  given sources are pulled: the first source seeds, the others merge.\<close>

definition merge_calls :: "bb \<Rightarrow> bool \<Rightarrow> bb list \<Rightarrow> wpa_call list" where
  "merge_calls b first sources =
     (if first
      then (case sources of [] \<Rightarrow> [] | p # ps \<Rightarrow> Pull_first_pred b p # map (Pull_pred b) ps)
      else map (Pull_pred b) sources)"

definition pull_calls :: "bb \<Rightarrow> bb list \<Rightarrow> wpa_call list" where
  "pull_calls b sources = Pull_init b # merge_calls b True sources @ [Pull_finish b]"

text \<open>An analysis whose pull calls act on an IN and an OUT state per block as a lattice
  analysis does: the first predecessor's OUT replaces the IN state, a further
  predecessor's OUT is joined to it, and pulling leaves the OUT states alone.\<close>

definition pull_protocol ::
    "'s wpa \<Rightarrow> ('s \<Rightarrow> bb \<Rightarrow> 'l) \<Rightarrow> ('s \<Rightarrow> bb \<Rightarrow> 'l) \<Rightarrow> ('l \<Rightarrow> 'l \<Rightarrow> 'l) \<Rightarrow> bool" where
  "pull_protocol w IN OUT join =
     (\<forall>b p s.
        IN (perform w (Pull_first_pred b p) s) b = OUT s p \<and>
        IN (perform w (Pull_pred b p) s) b = join (IN s b) (OUT s p) \<and>
        IN (perform w (Pull_finish b) s) b = IN s b \<and>
        OUT (perform w (Pull_init b) s) = OUT s \<and>
        OUT (perform w (Pull_first_pred b p) s) = OUT s \<and>
        OUT (perform w (Pull_pred b p) s) = OUT s)"

text \<open>An analysis whose pull calls never change what \<open>view\<close> reads of the results; an
  analysis keeps its IN and OUT states in itself, so the pull calls of every other
  analysis leave them alone.\<close>

definition leaves_alone :: "'s wpa \<Rightarrow> ('s \<Rightarrow> 'x) \<Rightarrow> bool" where
  "leaves_alone w view =
     (\<forall>b p s.
        view (perform w (Pull_init b) s) = view s \<and>
        view (perform w (Pull_first_pred b p) s) = view s \<and>
        view (perform w (Pull_pred b p) s) = view s \<and>
        view (perform w (Pull_finish b) s) = view s)"

text \<open>The call graph: the user method \<open>name\<close> has a block that invokes \<open>callee\<close>.\<close>

definition call_edges :: "method_infos \<Rightarrow> (string \<times> string) set" where
  "call_edges orc =
     {(name, callee). \<exists>info b lhs mi.
        orc name = Some (User_method_info info) \<and>
        block (cfg info) b = Statement_block (Invoke lhs mi) \<and>
        method_name mi = METHOD_NAME callee}"

text \<open>A method that calls itself, directly or through other methods.\<close>

definition recursive :: "method_infos \<Rightarrow> string \<Rightarrow> bool" where
  "recursive orc f = ((f, f) \<in> (call_edges orc)\<^sup>+)"

text \<open>The method information found under a name carries that name.\<close>

definition well_named :: "method_infos \<Rightarrow> bool" where
  "well_named orc = (\<forall>name info. orc name = Some (User_method_info info) \<longrightarrow> info_name info = name)"

text \<open>An invoker that leaves alone the flags of every method \<open>m\<close> that the method it
  invokes does not reach in the call graph.\<close>

definition frames :: "'s invoker \<Rightarrow> method_infos \<Rightarrow> bool" where
  "frames invoke orc =
     (\<forall>mi caller lhs st st' m.
        invoke mi caller lhs st = Some (Inr st') \<and>
        (\<forall>callee. method_name mi = METHOD_NAME callee \<longrightarrow> (callee, m) \<notin> (call_edges orc)\<^sup>*)
        \<longrightarrow> is_executable st' m = is_executable st m)"

text \<open>No method invoked from a block of the graph reaches \<open>m\<close>.\<close>

definition calls_avoid :: "method_infos \<Rightarrow> cfg \<Rightarrow> string \<Rightarrow> bool" where
  "calls_avoid orc g m =
     (\<forall>b lhs mi callee.
        block g b = Statement_block (Invoke lhs mi) \<and> method_name mi = METHOD_NAME callee
        \<longrightarrow> (callee, m) \<notin> (call_edges orc)\<^sup>*)"

text \<open>The first \<open>k\<close> rounds of the worklist loop: the worklist and the state after them.\<close>

fun worklist_rounds ::
    "'s env \<Rightarrow> 's invoker \<Rightarrow> string \<Rightarrow> cfg \<Rightarrow> nat \<Rightarrow> edge list \<Rightarrow> 's engine_state
      \<Rightarrow> (edge list \<times> 's engine_state) run" where
  "worklist_rounds env invoke m g 0 wl st = Some (Inr (wl, st))"
| "worklist_rounds env invoke m g (Suc k) [] st = Some (Inr ([], st))"
| "worklist_rounds env invoke m g (Suc k) (e # wl) st =
     and_then (worklist_step env invoke m g e wl st)
       (\<lambda>(wl', st'). worklist_rounds env invoke m g k wl' st')"

section \<open>A small instance, for evaluating the definitions\<close>

text \<open>Two analyses that keep no results, and collaborators over them: blocks below 10
  belong to \<^verbatim>\<open>__MAIN__\<close>, the others to a function \<^verbatim>\<open>f\<close>; the variable \<^verbatim>\<open>$a\<close> of
  \<^verbatim>\<open>f\<close> points to a scalar and to an array, \<^verbatim>\<open>$m\<close> to a value whose types are of all
  three categories, and the return slot to an \<^verbatim>\<open>int\<close>.\<close>

definition example_wpa :: "string \<Rightarrow> unit wpa" where
  "example_wpa n =
     \<lparr>wpa_name = n, perform = (\<lambda>c s. s), solution_changed = (\<lambda>b s. False),
      equals = (\<lambda>s s'. True)\<rparr>"

definition example_state :: "unit analysis_state" where
  "example_state =
     \<lparr>analyses = [example_wpa ''aliasing'', example_wpa ''ccp''], sol = (), trace = []\<rparr>"

definition base_env :: "'s env" where
  "base_env =
     \<lparr>P = (\<lambda>st v. Indexing (ST_path st) (Index_path v)),
      ST = (\<lambda>b. if b < 10 then ''__MAIN__'' else ''f''),
      VN = Index_node,
      RETNAME = ''__RETNAME__'',
      MSN = ''__MAIN__'',
      get_superglobals = [''GLOBALS'', ''_GET''],
      ABSVAL = (\<lambda>n. n),
      BB_array_name = (\<lambda>b. Alias_name ''array'' (lexical_cast b)),
      BB_object_name = (\<lambda>b. Alias_name ''object'' (lexical_cast b)),
      index_name = (\<lambda>n. case n of Index_node s i \<Rightarrow> Alias_name s i),
      storage_name = (\<lambda>n. Alias_name ''ST'' (storage n)),
      alias_less = (\<lambda>x y. case (x, y) of
                      (Alias_name p n, Alias_name q m) \<Rightarrow> p < q \<or> (p = q \<and> n < m)),
      get_references = (\<lambda>s b n c. []),
      get_values = (\<lambda>s b n.
                      if n = Index_node ''f'' ''a'' then [Storage_node ''SCALAR'', Storage_node ''arr'']
                      else if n = Index_node ''f'' ''m'' then [Storage_node ''mixed'']
                      else if n = Index_node ''f'' ''__RETNAME__'' then [Storage_node ''SCALAR'']
                      else []),
      ccp_get_value = (\<lambda>s b n. BOTTOM),
      branch_known_true = (\<lambda>s b n. False),
      branch_known_false = (\<lambda>s b n. False),
      type_inf_get_value = (\<lambda>s b n. BOTTOM),
      get_types = (\<lambda>s b n.
                     if n = Alias_name ''ST'' ''mixed'' then [''array'', ''int'', ''stdClass'']
                     else if n = Alias_name ''ST'' ''SCALAR'' then [''int'']
                     else []),
      get_scalar_types = filter (\<lambda>t. t \<in> set [''bool'', ''int'', ''null'', ''real'', ''string'']),
      get_array_types = filter (\<lambda>t. t = ''array''),
      get_object_types =
        filter (\<lambda>t. t \<notin> set [''array'', ''bool'', ''int'', ''null'', ''real'', ''string'']),
      get_value_as_string = (\<lambda>l. case l of STRING s \<Rightarrow> s | _ \<Rightarrow> ''''),
      visit_other_statement = (\<lambda>b s. Inr s)\<rparr>"

definition example_env :: "unit env" where
  "example_env = base_env"

definition example_info :: method_info where
  "example_info =
     \<lparr>info_name = ''f'', param_by_ref = (\<lambda>i. False), param_name = (\<lambda>i. ''p''),
      default_param = (\<lambda>i. False), return_by_ref = False\<rparr>"

text \<open>\<^verbatim>\<open>__MAIN__\<close> (blocks 0, 1, 2) calls \<^verbatim>\<open>f (true)\<close> in block 1.\<close>

definition call_f :: "literal \<Rightarrow> method_invocation" where
  "call_f l =
     \<lparr>target = None, method_name = METHOD_NAME ''f'',
      actual_parameters = [\<lparr>is_ref = False, rvalue = Literal l\<rparr>]\<rparr>"

definition main_cfg :: cfg where
  "main_cfg =
     \<lparr>get_entry_bb = 0, get_exit_bb = 2, get_entry_edge = Edge 0 0 1,
      get_all_edges = [Edge 0 0 1, Edge 1 1 2], get_all_bbs = [0, 1, 2],
      block = (\<lambda>b. if b = 0 then Entry_block
                   else if b = 1 then Statement_block (Invoke None (call_f (BOOL True)))
                   else Exit_block),
      get_successor_edges = (\<lambda>b. if b = 0 then [Edge 0 0 1] else if b = 1 then [Edge 1 1 2] else []),
      get_predecessor_edges = (\<lambda>b. if b = 1 then [Edge 0 0 1] else if b = 2 then [Edge 1 1 2] else []),
      get_true_successor_edge = (\<lambda>b. Edge 0 0 1),
      get_false_successor_edge = (\<lambda>b. Edge 0 0 1)\<rparr>"

definition user_method :: "string \<Rightarrow> cfg \<Rightarrow> user_method_info" where
  "user_method n g =
     \<lparr>info_name = n, param_by_ref = (\<lambda>i. False), param_name = (\<lambda>i. ''x''),
      default_param = (\<lambda>i. False), return_by_ref = False, cfg = g,
      side_effecting = False\<rparr>"







text \<open>A recursive function, \<^verbatim>\<open>function f ($x) { if ($x) { ...; f (false); } }\<close>: block 11
  branches on \<^verbatim>\<open>$x\<close>, block 12 is a statement that is not a call, block 13 calls
  \<^verbatim>\<open>f (false)\<close>. It is analysed with one analysis, which keeps the literal last assigned
  to \<^verbatim>\<open>$x\<close> and decides the branch from it.\<close>

definition recursive_cfg :: cfg where
  "recursive_cfg =
     \<lparr>get_entry_bb = 10, get_exit_bb = 14, get_entry_edge = Edge 0 10 11,
      get_all_edges = [Edge 0 10 11, Edge 1 11 12, Edge 2 11 14, Edge 3 12 13, Edge 4 13 14],
      get_all_bbs = [10, 11, 12, 13, 14],
      block = (\<lambda>b. if b = 10 then Entry_block
                   else if b = 11 then Branch_block ''x''
                   else if b = 12 then Statement_block Other_statement
                   else if b = 13 then Statement_block (Invoke None (call_f (BOOL False)))
                   else Exit_block),
      get_successor_edges =
        (\<lambda>b. if b = 10 then [Edge 0 10 11]
             else if b = 11 then [Edge 1 11 12, Edge 2 11 14]
             else if b = 12 then [Edge 3 12 13]
             else if b = 13 then [Edge 4 13 14]
             else []),
      get_predecessor_edges =
        (\<lambda>b. if b = 11 then [Edge 0 10 11]
             else if b = 12 then [Edge 1 11 12]
             else if b = 13 then [Edge 3 12 13]
             else if b = 14 then [Edge 2 11 14, Edge 4 13 14]
             else []),
      get_true_successor_edge = (\<lambda>b. Edge 1 11 12),
      get_false_successor_edge = (\<lambda>b. Edge 2 11 14)\<rparr>"

definition recursive_methods :: method_infos where
  "recursive_methods =
     (\<lambda>n. if n = ''f'' then Some (User_method_info (user_method ''f'' recursive_cfg)) else None)"

text \<open>A program in which \<^verbatim>\<open>__MAIN__\<close> is not recursive and calls the recursive \<^verbatim>\<open>f\<close>.\<close>

definition mixed_methods :: method_infos where
  "mixed_methods =
     (\<lambda>n. if n = ''__MAIN__'' then Some (User_method_info (user_method ''__MAIN__'' main_cfg))
          else if n = ''f'' then Some (User_method_info (user_method ''f'' recursive_cfg))
          else None)"

definition literal_wpa :: "literal option wpa" where
  "literal_wpa =
     \<lparr>wpa_name = ''ccp'',
      perform = (\<lambda>c s. case c of
                   Assign_scalar b n a (From_literal l) cert \<Rightarrow>
                     if n = Alias_name ''f'' ''x'' then Some l else s
                 | _ \<Rightarrow> s),
      solution_changed = (\<lambda>b s. False),
      equals = (\<lambda>s s'. s = s')\<rparr>"

definition literal_env :: "literal option env" where
  "literal_env =
     base_env\<lparr>branch_known_true := (\<lambda>s b c. s = Some (BOOL True)),
                  branch_known_false := (\<lambda>s b c. s = Some (BOOL False))\<rparr>"

definition literal_state :: "literal option \<Rightarrow> literal option analysis_state" where
  "literal_state l = \<lparr>analyses = [literal_wpa], sol = l, trace = []\<rparr>"

definition literal_engine_state :: "literal option engine_state" where
  "literal_engine_state = \<lparr>an = literal_state None, is_executable = (\<lambda>m e. False)\<rparr>"

text \<open>The flags of the given edges of method \<open>m\<close> after a run.\<close>

definition flags_after ::
    "string \<Rightarrow> edge list \<Rightarrow> (edge list \<times> 's engine_state) run \<Rightarrow> bool list run" where
  "flags_after m es r = map_option (map_sum id (\<lambda>(wl, st). map (is_executable st m) es)) r"

text \<open>A run that returns normally.\<close>

definition returns :: "'a run \<Rightarrow> bool" where
  "returns r = (case r of Some (Inr x) \<Rightarrow> True | _ \<Rightarrow> False)"

text \<open>Three predecessor edges of block 3, the second of which is not executable.\<close>

definition example_executable :: "edge \<Rightarrow> bool" where
  "example_executable e = (e \<noteq> Edge 1 2 3)"

text \<open>An analysis over an IN and an OUT number per block, joined by the maximum.\<close>

definition max_wpa :: "((bb \<Rightarrow> nat) \<times> (bb \<Rightarrow> nat)) wpa" where
  "max_wpa =
     \<lparr>wpa_name = ''max'',
      perform = (\<lambda>c s. case c of
                   Pull_init b \<Rightarrow> ((fst s)(b := 0), snd s)
                 | Pull_first_pred b p \<Rightarrow> ((fst s)(b := snd s p), snd s)
                 | Pull_pred b p \<Rightarrow> ((fst s)(b := max (fst s b) (snd s p)), snd s)
                 | _ \<Rightarrow> s),
      solution_changed = (\<lambda>b s. False),
      equals = (\<lambda>s s'. False)\<rparr>"

text \<open>An analysis that keeps no results, beside it.\<close>

definition quiet_wpa :: "((bb \<Rightarrow> nat) \<times> (bb \<Rightarrow> nat)) wpa" where
  "quiet_wpa =
     \<lparr>wpa_name = ''quiet'', perform = (\<lambda>c s. s), solution_changed = (\<lambda>b s. False),
      equals = (\<lambda>s s'. True)\<rparr>"

definition max_state :: "((bb \<Rightarrow> nat) \<times> (bb \<Rightarrow> nat)) analysis_state" where
  "max_state =
     \<lparr>analyses = [quiet_wpa, max_wpa], sol = ((\<lambda>b. 7), (\<lambda>b. b * 10)), trace = []\<rparr>"

text \<open>The table of modelled functions, as a list of entries: a name, and the literal or
  the types given to the return slot.\<close>

definition modelled_functions :: "(string \<times> (literal + types)) list" where
  "modelled_functions =
     [(''strlen'', Inr [''int'']),
      (''dechex'', Inr [''string'']),
      (''print'', Inl (INT_lit 1)),
      (''is_array'', Inr [''bool'']),
      (''is_object'', Inr [''bool'']),
      (''trigger_error'', Inr [''bool''])]"

text \<open>The calls that assign the value \<open>v\<close> to each of \<open>names\<close>: one per name and
  analysis.\<close>

definition assignments ::
    "'s env \<Rightarrow> bb \<Rightarrow> abstract_value \<Rightarrow> alias_name list \<Rightarrow> 's analysis_state
      \<Rightarrow> (string \<times> wpa_call) list" where
  "assignments env b v names st =
     concat (map (\<lambda>name. map (\<lambda>w. (wpa_name w, Assign_scalar b name (ABSVAL env name) v POSSIBLE))
                                (analyses st)) names)"

text \<open>The calls \<^verbatim>\<open>kill_value\<close> makes for a list of nodes: one per node and analysis.\<close>

definition kills :: "'s env \<Rightarrow> bb \<Rightarrow> index_node list \<Rightarrow> 's analysis_state \<Rightarrow> (string \<times> wpa_call) list" where
  "kills env b nodes st =
     concat (map (\<lambda>n. map (\<lambda>w. (wpa_name w, Kill_value b (index_name env n))) (analyses st)) nodes)"

section \<open>Calls reach every analysis, in order\<close>

lemma fold_call_wpa_trace:
  "trace (fold (call_wpa c) ws st) = trace st @ map (\<lambda>w. (wpa_name w, c)) ws"
  by (induction ws arbitrary: st) (simp_all add: call_wpa_def)

lemma fold_call_wpa_analyses:
  "analyses (fold (call_wpa c) ws st) = analyses st"
  by (induction ws arbitrary: st) (simp_all add: call_wpa_def)

lemma trace_foreach_wpa:
  "trace (foreach_wpa c st) = trace st @ map (\<lambda>w. (wpa_name w, c)) (analyses st)"
  by (simp add: foreach_wpa_def fold_call_wpa_trace)

lemma analyses_foreach_wpa: "analyses (foreach_wpa c st) = analyses st"
  by (simp add: foreach_wpa_def fold_call_wpa_analyses)

lemma fold_kill_trace:
  "trace (fold (\<lambda>ref. foreach_wpa (Kill_value b (index_name env ref))) refs st) =
     trace st @ kills env b refs st \<and>
   analyses (fold (\<lambda>ref. foreach_wpa (Kill_value b (index_name env ref))) refs st) = analyses st"
  by (induction refs arbitrary: st)
     (simp_all add: kills_def trace_foreach_wpa analyses_foreach_wpa)

lemma fold_foreach_wpa_trace:
  "trace (fold (\<lambda>name. foreach_wpa (c name)) names st) =
     trace st @ concat (map (\<lambda>name. map (\<lambda>w. (wpa_name w, c name)) (analyses st)) names) \<and>
   analyses (fold (\<lambda>name. foreach_wpa (c name)) names st) = analyses st"
  by (induction names arbitrary: st) (simp_all add: trace_foreach_wpa analyses_foreach_wpa)

lemma foreach_Inr:
  "(\<And>x s. f x s = Inr (g x s)) \<Longrightarrow> foreach xs f s = Inr (fold g xs s)"
  by (induction xs arbitrary: s) simp_all

section \<open>String values of a dynamic index\<close>

text \<open>
  C10. For every block and index node, \<^verbatim>\<open>get_string_values\<close> returns a list of exactly
  one string: the empty string when the constant-propagation value is \<^verbatim>\<open>TOP\<close>, the
  wildcard \<^verbatim>\<open>UNKNOWN\<close> when it is \<^verbatim>\<open>BOTTOM\<close>, and the literal's string otherwise.
\<close>

theorem get_string_values_single:
  "length (get_string_values env st b index) = 1 \<and>
   get_string_values env st b index =
     [case ccp_get_value env (sol st) b (index_name env index) of
        TOP \<Rightarrow> ''''
      | BOTTOM \<Rightarrow> UNKNOWN
      | Lattice_value v \<Rightarrow> get_value_as_string env v]"
  by (simp add: get_string_values_def split: lattice_cell.splits)

section \<open>The certainty of a kill\<close>

lemma kill_value_empty:
  assumes "get_named_indices env b plhs False st = Inr ([], st1)"
  shows "kill_value env b plhs st = Inl (Assertion_failed, trace st1)"
  using assms by (simp add: kill_value_def kill_value_body_def is_must_def)

text \<open>
  C3, as amended. When the path of an assignment target resolves to a non-empty list of
  index nodes, \<^verbatim>\<open>kill_value\<close> returns a certainty, which is \<^verbatim>\<open>DEFINITE\<close> if and only if
  the list has exactly one element. A \<^verbatim>\<open>DEFINITE\<close> kill calls \<^verbatim>\<open>kill_value\<close> of every
  analysis for each \<^verbatim>\<open>DEFINITE\<close> reference of that node and then for the node itself. A
  \<^verbatim>\<open>POSSIBLE\<close> kill leaves the state as the resolution of the path left it: it calls no
  analysis beyond what resolving the path called.
\<close>

theorem kill_value_certainty:
  assumes "get_named_indices env b plhs False st = Inr (lhss, st1)" and "lhss \<noteq> []"
  shows "\<exists>cert st'. kill_value env b plhs st = Inr (cert, st') \<and>
           (cert = DEFINITE \<longleftrightarrow> length lhss = 1) \<and>
           (cert = DEFINITE \<longrightarrow>
              trace st' = trace st1 @
                kills env b (get_references env (sol st1) b (hd lhss) DEFINITE @ [hd lhss]) st1) \<and>
           (cert = POSSIBLE \<longrightarrow> st' = st1)"
proof (cases "length lhss = 1")
  case True
  with assms show ?thesis
    by (simp add: kill_value_def kill_value_body_def is_must_def Let_def
          trace_foreach_wpa fold_kill_trace kills_def)
next
  case False
  with assms show ?thesis
    by (simp add: kill_value_def kill_value_body_def is_must_def)
qed

theorem kill_value_certainty_witness:
  "\<exists>cert st'. kill_value example_env 12 (Indexing (ST_path ''f'') (Index_path ''x'')) example_state
                 = Inr (cert, st') \<and>
     cert = DEFINITE \<and>
     trace st' = [(''aliasing'', Kill_value 12 (Alias_name ''f'' ''x'')),
                  (''ccp'', Kill_value 12 (Alias_name ''f'' ''x''))]"
proof -
  have r: "get_named_indices example_env 12 (Indexing (ST_path ''f'') (Index_path ''x'')) False example_state
             = Inr ([Index_node ''f'' ''x''], example_state)"
    by (simp add: combine_results_def)
  have n: "[Index_node ''f'' ''x''] \<noteq> []" by simp
  from kill_value_certainty [OF r n] show ?thesis
    by (auto simp add: kills_def example_env_def base_env_def example_state_def example_wpa_def)
qed

text \<open>
  C3 as stated fails: resolving \<^verbatim>\<open>$a[0]\<close> in block 17, where \<^verbatim>\<open>$a\<close> points to a scalar and
  to an array, creates an empty array at \<^verbatim>\<open>$a\<close>, which kills \<^verbatim>\<open>$a\<close> definitely; the path
  itself resolves to two index nodes, so the kill of the path is \<^verbatim>\<open>POSSIBLE\<close>, and yet
  \<^verbatim>\<open>kill_value\<close> of the analyses has been called.
\<close>

theorem kill_value_possible_counterexample:
  "map_sum id (map_prod id trace)
     (kill_value example_env 17
        (Indexing (Indexing (ST_path ''f'') (Index_path ''a'')) (Index_path ''0'')) example_state)
   = Inr (POSSIBLE,
       [(''aliasing'', Kill_value 17 (Alias_name ''f'' ''a'')),
        (''ccp'', Kill_value 17 (Alias_name ''f'' ''a'')),
        (''aliasing'', Assign_empty_array 17 (Alias_name ''f'' ''a'') ''17'' DEFINITE),
        (''ccp'', Assign_empty_array 17 (Alias_name ''f'' ''a'') ''17'' DEFINITE)])"
  by code_simp

section \<open>The category check of assign-by-copy\<close>

lemma copy_value_two_categories:
  assumes "tys = get_types env (sol s) b (storage_name env stn)"
    and "(get_scalar_types env tys \<noteq> [] \<and> get_array_types env tys \<noteq> [] \<and> get_object_types env tys = []) \<or>
         (get_scalar_types env tys \<noteq> [] \<and> get_array_types env tys = [] \<and> get_object_types env tys \<noteq> []) \<or>
         (get_scalar_types env tys = [] \<and> get_array_types env tys \<noteq> [] \<and> get_object_types env tys \<noteq> [])"
  shows "copy_value env b name w stn s = Inl (Assertion_failed, trace s)"
  using assms by (auto simp add: copy_value_def Let_def)

text \<open>
  C2 at the input where the code departs from it. For a storage node whose types have a
  scalar, an array and an object part at once, the check of \<^verbatim>\<open>assign_by_copy\<close> passes
  (\<^verbatim>\<open>true ^ true ^ true\<close> is \<^verbatim>\<open>true\<close>), the scalar part is assigned, and the copy ends in
  \<^verbatim>\<open>phc_TODO ()\<close>, not in a failed assertion.
\<close>

theorem copy_value_three_categories:
  assumes "get_scalar_types env (get_types env (sol s) b (storage_name env stn)) \<noteq> []"
    and "get_array_types env (get_types env (sol s) b (storage_name env stn)) \<noteq> []"
    and "get_object_types env (get_types env (sol s) b (storage_name env stn)) \<noteq> []"
  shows "copy_value env b name w stn s =
           Inl (Unimplemented,
                trace s @ [(wpa_name w,
                            Assign_scalar b name (ABSVAL env name)
                              (get_abstract_value env s b (storage_name env stn)) POSSIBLE)])"
  using assms by (simp add: copy_value_def Let_def call_wpa_def)

theorem copy_value_three_categories_witness:
  "copy_value example_env 12 (Alias_name ''f'' ''x'') (example_wpa ''aliasing'')
     (Storage_node ''mixed'') example_state =
   Inl (Unimplemented,
        [(''aliasing'', Assign_scalar 12 (Alias_name ''f'' ''x'') (Alias_name ''f'' ''x'')
            (Abstract_value BOTTOM BOTTOM) POSSIBLE)])"
proof -
  have "copy_value example_env 12 (Alias_name ''f'' ''x'') (example_wpa ''aliasing'')
          (Storage_node ''mixed'') example_state =
        Inl (Unimplemented,
             trace example_state @
               [(wpa_name (example_wpa ''aliasing''),
                 Assign_scalar 12 (Alias_name ''f'' ''x'') (ABSVAL example_env (Alias_name ''f'' ''x''))
                   (get_abstract_value example_env example_state 12
                      (storage_name example_env (Storage_node ''mixed''))) POSSIBLE)])"
    by (rule copy_value_three_categories) (simp_all add: example_env_def base_env_def)
  then show ?thesis
    by (simp add: example_env_def base_env_def example_state_def example_wpa_def
          get_abstract_value_def)
qed

lemma assign_by_copy_three_categories_example:
  "assign_by_copy example_env 12 (Indexing (ST_path ''f'') (Index_path ''x''))
     (Indexing (ST_path ''f'') (Index_path ''m'')) example_state =
   Inl (Unimplemented,
        [(''aliasing'', Kill_value 12 (Alias_name ''f'' ''x'')),
         (''ccp'', Kill_value 12 (Alias_name ''f'' ''x'')),
         (''aliasing'', Record_use 12 (Alias_name ''f'' ''m'') POSSIBLE),
         (''ccp'', Record_use 12 (Alias_name ''f'' ''m'') POSSIBLE),
         (''aliasing'', Assign_scalar 12 (Alias_name ''f'' ''x'') (Alias_name ''f'' ''x'')
            (Abstract_value BOTTOM BOTTOM) POSSIBLE)])"
proof -
  have "map_sum id trace
          (assign_by_copy example_env 12 (Indexing (ST_path ''f'') (Index_path ''x''))
             (Indexing (ST_path ''f'') (Index_path ''m'')) example_state) =
        Inl (Unimplemented,
          [(''aliasing'', Kill_value 12 (Alias_name ''f'' ''x'')),
           (''ccp'', Kill_value 12 (Alias_name ''f'' ''x'')),
           (''aliasing'', Record_use 12 (Alias_name ''f'' ''m'') POSSIBLE),
           (''ccp'', Record_use 12 (Alias_name ''f'' ''m'') POSSIBLE),
           (''aliasing'', Assign_scalar 12 (Alias_name ''f'' ''x'') (Alias_name ''f'' ''x'')
              (Abstract_value BOTTOM BOTTOM) POSSIBLE)])"
    by code_simp
  then show ?thesis by (simp add: map_sum_def split: sum.splits)
qed

section \<open>Modelled functions\<close>

lemma assign_scalar_names:
  assumes "kill_value env b p st = Inr (cert, st1)"
    and "get_all_referenced_names env b p cert False st1 = Inr (names, st2)"
  shows "assign_scalar env b p lit st =
           Inr (fold (\<lambda>name. foreach_wpa
                        (Assign_scalar b name (ABSVAL env name) (From_literal lit) POSSIBLE))
                  names st2)"
  using assms by (simp add: assign_scalar_def)

lemma assign_typed_scalars:
  assumes k: "kill_value env b p st = Inr (cert, st1)"
    and n: "get_all_referenced_names env b p cert False st1 = Inr (names, st2)"
    and t: "get_scalar_types env tys \<noteq> []" "get_array_types env tys = []"
      "get_object_types env tys = []"
  shows "assign_typed env b p tys st =
           Inr (fold (\<lambda>name. foreach_wpa
                        (Assign_scalar b name (ABSVAL env name)
                           (From_types (get_scalar_types env tys)) POSSIBLE))
                  names st2)"
proof -
  have 1: "assign_typed_to env b tys name w s =
             Inr (call_wpa (Assign_scalar b name (ABSVAL env name)
                              (From_types (get_scalar_types env tys)) POSSIBLE) w s)"
    for name w and s :: "'a analysis_state"
    using t by (simp add: assign_typed_to_def Let_def)
  have 2: "foreach (analyses s) (assign_typed_to env b tys name) s =
             Inr (foreach_wpa (Assign_scalar b name (ABSVAL env name)
                                 (From_types (get_scalar_types env tys)) POSSIBLE) s)"
    for name and s :: "'a analysis_state"
    by (simp add: foreach_wpa_def
          foreach_Inr [where g = "call_wpa (Assign_scalar b name (ABSVAL env name)
                                              (From_types (get_scalar_types env tys)) POSSIBLE)"] 1)
  have 3: "foreach names (\<lambda>name s. foreach (analyses s) (assign_typed_to env b tys name) s) st2 =
             Inr (fold (\<lambda>name. foreach_wpa
                          (Assign_scalar b name (ABSVAL env name)
                             (From_types (get_scalar_types env tys)) POSSIBLE))
                    names st2)"
    by (rule foreach_Inr) (rule 2)
  from k n 3 show ?thesis by (simp add: assign_typed_def)
qed

lemma modelled_types_not_empty:
  "map_of modelled_functions n = Some (Inr tys) \<Longrightarrow> tys \<noteq> []"
  by (auto simp add: modelled_functions_def split: if_splits)

text \<open>
  C9. \<^verbatim>\<open>apply_modelled_function\<close> is a lookup of the method's name in a fixed table of six
  entries (\<^verbatim>\<open>strlen\<close> has the type \<^verbatim>\<open>int\<close>, \<^verbatim>\<open>print\<close> the literal 1). When the return slot
  of the block resolves, an entry with a literal makes every analysis assign that literal
  to each name of the return slot, and an entry with types, which are scalar types, makes
  every analysis assign these types to each name of the return slot; nothing else is
  called after the slot has been killed. A name that is not in the table is an
  unimplemented case, and aborts before any analysis is called.
\<close>

theorem apply_modelled_function_table:
  "apply_modelled_function env info b st =
     (case map_of modelled_functions (info_name info) of
        None \<Rightarrow> Inl (Unimplemented, trace st)
      | Some (Inl lit) \<Rightarrow> assign_scalar env b (P env (ST env b) (RETNAME env)) lit st
      | Some (Inr tys) \<Rightarrow> assign_typed env b (P env (ST env b) (RETNAME env)) tys st) \<and>
   (\<forall>cert st1 names st2 lit.
      kill_value env b (P env (ST env b) (RETNAME env)) st = Inr (cert, st1) \<and>
      get_all_referenced_names env b (P env (ST env b) (RETNAME env)) cert False st1
        = Inr (names, st2) \<and>
      map_of modelled_functions (info_name info) = Some (Inl lit) \<longrightarrow>
        apply_modelled_function env info b st =
          Inr (fold (\<lambda>name. foreach_wpa
                       (Assign_scalar b name (ABSVAL env name) (From_literal lit) POSSIBLE))
                 names st2) \<and>
        (\<exists>st'. apply_modelled_function env info b st = Inr st' \<and>
           trace st' = trace st2 @ assignments env b (From_literal lit) names st2)) \<and>
   (\<forall>cert st1 names st2 tys.
      kill_value env b (P env (ST env b) (RETNAME env)) st = Inr (cert, st1) \<and>
      get_all_referenced_names env b (P env (ST env b) (RETNAME env)) cert False st1
        = Inr (names, st2) \<and>
      map_of modelled_functions (info_name info) = Some (Inr tys) \<and>
      get_scalar_types env tys = tys \<and> get_array_types env tys = [] \<and>
      get_object_types env tys = [] \<longrightarrow>
        apply_modelled_function env info b st =
          Inr (fold (\<lambda>name. foreach_wpa
                       (Assign_scalar b name (ABSVAL env name) (From_types tys) POSSIBLE))
                 names st2) \<and>
        (\<exists>st'. apply_modelled_function env info b st = Inr st' \<and>
           trace st' = trace st2 @ assignments env b (From_types tys) names st2)) \<and>
   map_of modelled_functions ''strlen'' = Some (Inr [''int'']) \<and>
   map_of modelled_functions ''print'' = Some (Inl (INT_lit 1)) \<and>
   (info_name info \<notin> fst ` set modelled_functions \<longrightarrow>
      apply_modelled_function env info b st = Inl (Unimplemented, trace st))"
proof -
  let ?ret = "P env (ST env b) (RETNAME env)"
  have lookup: "apply_modelled_function env info b st =
     (case map_of modelled_functions (info_name info) of
        None \<Rightarrow> Inl (Unimplemented, trace st)
      | Some (Inl lit) \<Rightarrow> assign_scalar env b ?ret lit st
      | Some (Inr tys) \<Rightarrow> assign_typed env b ?ret tys st)"
    by (simp add: apply_modelled_function_def modelled_functions_def Let_def)
  have literals: "apply_modelled_function env info b st =
          Inr (fold (\<lambda>name. foreach_wpa
                       (Assign_scalar b name (ABSVAL env name) (From_literal lit) POSSIBLE))
                 names st2) \<and>
        (\<exists>st'. apply_modelled_function env info b st = Inr st' \<and>
           trace st' = trace st2 @ assignments env b (From_literal lit) names st2)"
    if "kill_value env b ?ret st = Inr (cert, st1) \<and>
        get_all_referenced_names env b ?ret cert False st1 = Inr (names, st2) \<and>
        map_of modelled_functions (info_name info) = Some (Inl lit)"
    for cert st1 names st2 lit
  proof -
    from that have k: "kill_value env b ?ret st = Inr (cert, st1)"
      and n: "get_all_referenced_names env b ?ret cert False st1 = Inr (names, st2)"
      and m: "map_of modelled_functions (info_name info) = Some (Inl lit)"
      by simp_all
    from lookup m assign_scalar_names [OF k n, of lit]
    have r: "apply_modelled_function env info b st =
          Inr (fold (\<lambda>name. foreach_wpa
                       (Assign_scalar b name (ABSVAL env name) (From_literal lit) POSSIBLE))
                 names st2)"
      by simp
    then show ?thesis
      by (simp add: assignments_def fold_foreach_wpa_trace)
  qed
  have typed: "apply_modelled_function env info b st =
          Inr (fold (\<lambda>name. foreach_wpa
                       (Assign_scalar b name (ABSVAL env name) (From_types tys) POSSIBLE))
                 names st2) \<and>
        (\<exists>st'. apply_modelled_function env info b st = Inr st' \<and>
           trace st' = trace st2 @ assignments env b (From_types tys) names st2)"
    if "kill_value env b ?ret st = Inr (cert, st1) \<and>
        get_all_referenced_names env b ?ret cert False st1 = Inr (names, st2) \<and>
        map_of modelled_functions (info_name info) = Some (Inr tys) \<and>
        get_scalar_types env tys = tys \<and> get_array_types env tys = [] \<and>
        get_object_types env tys = []"
    for cert st1 names st2 tys
  proof -
    from that have k: "kill_value env b ?ret st = Inr (cert, st1)"
      and n: "get_all_referenced_names env b ?ret cert False st1 = Inr (names, st2)"
      and m: "map_of modelled_functions (info_name info) = Some (Inr tys)"
      and s: "get_scalar_types env tys = tys"
      and a: "get_array_types env tys = []" and ob: "get_object_types env tys = []"
      by simp_all
    from modelled_types_not_empty [OF m] s have ne: "get_scalar_types env tys \<noteq> []"
      by simp
    from lookup m assign_typed_scalars [OF k n ne a ob] s
    have r: "apply_modelled_function env info b st =
          Inr (fold (\<lambda>name. foreach_wpa
                       (Assign_scalar b name (ABSVAL env name) (From_types tys) POSSIBLE))
                 names st2)"
      by simp
    then show ?thesis
      by (simp add: assignments_def fold_foreach_wpa_trace)
  qed
  have strlen: "map_of modelled_functions ''strlen'' = Some (Inr [''int''])"
    and print: "map_of modelled_functions ''print'' = Some (Inl (INT_lit 1))"
    by (simp_all add: modelled_functions_def)
  have other: "info_name info \<notin> fst ` set modelled_functions \<longrightarrow>
      apply_modelled_function env info b st = Inl (Unimplemented, trace st)"
    by (simp add: apply_modelled_function_def modelled_functions_def Let_def)
  from lookup literals typed strlen print other show ?thesis
    by (intro conjI allI impI) blast+
qed

lemma kill_return_slot_example:
  "kill_value example_env 12 (P example_env (ST example_env 12) (RETNAME example_env)) example_state =
     Inr (DEFINITE, example_state\<lparr>trace :=
       [(''aliasing'', Kill_value 12 (Alias_name ''f'' ''__RETNAME__'')),
        (''ccp'', Kill_value 12 (Alias_name ''f'' ''__RETNAME__''))]\<rparr>)"
  by (simp add: kill_value_def kill_value_body_def is_must_def combine_results_def
        foreach_wpa_def call_wpa_def example_env_def base_env_def example_state_def example_wpa_def)

lemma names_of_return_slot_example:
  "get_all_referenced_names example_env 12
     (P example_env (ST example_env 12) (RETNAME example_env)) DEFINITE False
     (example_state\<lparr>trace :=
       [(''aliasing'', Kill_value 12 (Alias_name ''f'' ''__RETNAME__'')),
        (''ccp'', Kill_value 12 (Alias_name ''f'' ''__RETNAME__''))]\<rparr>) =
     Inr ([Alias_name ''f'' ''__RETNAME__''],
          example_state\<lparr>trace :=
            [(''aliasing'', Kill_value 12 (Alias_name ''f'' ''__RETNAME__'')),
             (''ccp'', Kill_value 12 (Alias_name ''f'' ''__RETNAME__''))]\<rparr>)"
  by (simp add: get_all_referenced_names_def get_all_referenced_names_body_def combine_results_def
        example_env_def base_env_def example_state_def example_wpa_def)

theorem apply_modelled_function_table_witness:
  "(\<exists>st'. apply_modelled_function example_env (example_info\<lparr>info_name := ''strlen''\<rparr>) 12
            example_state = Inr st' \<and>
      trace st' =
        [(''aliasing'', Kill_value 12 (Alias_name ''f'' ''__RETNAME__'')),
         (''ccp'', Kill_value 12 (Alias_name ''f'' ''__RETNAME__'')),
         (''aliasing'', Assign_scalar 12 (Alias_name ''f'' ''__RETNAME__'')
            (Alias_name ''f'' ''__RETNAME__'') (From_types [''int'']) POSSIBLE),
         (''ccp'', Assign_scalar 12 (Alias_name ''f'' ''__RETNAME__'')
            (Alias_name ''f'' ''__RETNAME__'') (From_types [''int'']) POSSIBLE)]) \<and>
   (\<exists>st'. apply_modelled_function example_env (example_info\<lparr>info_name := ''print''\<rparr>) 12
            example_state = Inr st' \<and>
      trace st' =
        [(''aliasing'', Kill_value 12 (Alias_name ''f'' ''__RETNAME__'')),
         (''ccp'', Kill_value 12 (Alias_name ''f'' ''__RETNAME__'')),
         (''aliasing'', Assign_scalar 12 (Alias_name ''f'' ''__RETNAME__'')
            (Alias_name ''f'' ''__RETNAME__'') (From_literal (INT_lit 1)) POSSIBLE),
         (''ccp'', Assign_scalar 12 (Alias_name ''f'' ''__RETNAME__'')
            (Alias_name ''f'' ''__RETNAME__'') (From_literal (INT_lit 1)) POSSIBLE)]) \<and>
   ''f'' \<notin> fst ` set modelled_functions \<and>
   apply_modelled_function example_env example_info 12 example_state = Inl (Unimplemented, [])"
proof -
  let ?killed = "example_state\<lparr>trace :=
       [(''aliasing'', Kill_value 12 (Alias_name ''f'' ''__RETNAME__'')),
        (''ccp'', Kill_value 12 (Alias_name ''f'' ''__RETNAME__''))]\<rparr>"
  let ?names = "[Alias_name ''f'' ''__RETNAME__'']"
  have part: "get_scalar_types example_env [''int''] = [''int'']"
    "get_array_types example_env [''int''] = []" "get_object_types example_env [''int''] = []"
    by (simp_all add: example_env_def base_env_def)
  have s: "map_of modelled_functions (info_name (example_info\<lparr>info_name := ''strlen''\<rparr>))
             = Some (Inr [''int''])"
    and p: "map_of modelled_functions (info_name (example_info\<lparr>info_name := ''print''\<rparr>))
             = Some (Inl (INT_lit 1))"
    and f: "info_name example_info \<notin> fst ` set modelled_functions"
    by (simp_all add: modelled_functions_def example_info_def)
  have "\<exists>st'. apply_modelled_function example_env (example_info\<lparr>info_name := ''strlen''\<rparr>) 12
                 example_state = Inr st' \<and>
          trace st' = trace ?killed @ assignments example_env 12 (From_types [''int'']) ?names ?killed"
    using apply_modelled_function_table
            [where env = example_env and info = "example_info\<lparr>info_name := ''strlen''\<rparr>"
               and b = 12 and st = example_state,
             THEN conjunct2, THEN conjunct2, THEN conjunct1, rule_format,
             of DEFINITE ?killed ?names ?killed "[''int'']"]
      kill_return_slot_example names_of_return_slot_example s part
    by blast
  then have 1: "\<exists>st'. apply_modelled_function example_env (example_info\<lparr>info_name := ''strlen''\<rparr>) 12
                 example_state = Inr st' \<and>
      trace st' =
        [(''aliasing'', Kill_value 12 (Alias_name ''f'' ''__RETNAME__'')),
         (''ccp'', Kill_value 12 (Alias_name ''f'' ''__RETNAME__'')),
         (''aliasing'', Assign_scalar 12 (Alias_name ''f'' ''__RETNAME__'')
            (Alias_name ''f'' ''__RETNAME__'') (From_types [''int'']) POSSIBLE),
         (''ccp'', Assign_scalar 12 (Alias_name ''f'' ''__RETNAME__'')
            (Alias_name ''f'' ''__RETNAME__'') (From_types [''int'']) POSSIBLE)]"
    by (simp add: assignments_def example_env_def base_env_def example_state_def example_wpa_def)
  have "\<exists>st'. apply_modelled_function example_env (example_info\<lparr>info_name := ''print''\<rparr>) 12
                 example_state = Inr st' \<and>
          trace st' = trace ?killed @ assignments example_env 12 (From_literal (INT_lit 1)) ?names ?killed"
    using apply_modelled_function_table
            [where env = example_env and info = "example_info\<lparr>info_name := ''print''\<rparr>"
               and b = 12 and st = example_state,
             THEN conjunct2, THEN conjunct1, rule_format,
             of DEFINITE ?killed ?names ?killed "INT_lit 1"]
      kill_return_slot_example names_of_return_slot_example p
    by blast
  then have 2: "\<exists>st'. apply_modelled_function example_env (example_info\<lparr>info_name := ''print''\<rparr>) 12
                 example_state = Inr st' \<and>
      trace st' =
        [(''aliasing'', Kill_value 12 (Alias_name ''f'' ''__RETNAME__'')),
         (''ccp'', Kill_value 12 (Alias_name ''f'' ''__RETNAME__'')),
         (''aliasing'', Assign_scalar 12 (Alias_name ''f'' ''__RETNAME__'')
            (Alias_name ''f'' ''__RETNAME__'') (From_literal (INT_lit 1)) POSSIBLE),
         (''ccp'', Assign_scalar 12 (Alias_name ''f'' ''__RETNAME__'')
            (Alias_name ''f'' ''__RETNAME__'') (From_literal (INT_lit 1)) POSSIBLE)]"
    by (simp add: assignments_def example_env_def base_env_def example_state_def example_wpa_def)
  from f have 3: "''f'' \<notin> fst ` set modelled_functions"
    by (simp add: example_info_def)
  from apply_modelled_function_table
         [where env = example_env and info = example_info and b = 12 and st = example_state,
          THEN conjunct2, THEN conjunct2, THEN conjunct2, THEN conjunct2, THEN conjunct2] f
  have 4: "apply_modelled_function example_env example_info 12 example_state = Inl (Unimplemented, [])"
    by (simp add: example_state_def)
  from 1 2 3 4 show ?thesis by (intro conjI)
qed

section \<open>Backward bind\<close>

text \<open>
  C8, as amended. For a call with a target variable and a caller block: if the callee
  returns by reference, backward bind is an unimplemented case, and the calls made to the
  analyses when it aborts are those made before backward bind was entered, so it has
  called no hook; if not, it assigns the target by copy from the callee's return slot,
  evaluated at the callee's exit block, and when that assignment completes the
  \<^verbatim>\<open>backward_bind\<close> hook of every analysis is called after it, once each. With no target
  variable nothing is assigned and every hook is called.
\<close>

theorem backward_bind_cases:
  "(\<forall>v c. lhs = Some v \<and> caller = Some c \<and> return_by_ref info \<longrightarrow>
       backward_bind env info caller exit lhs st = Inl (Unimplemented, trace st)) \<and>
   (\<forall>v c. lhs = Some v \<and> caller = Some c \<and> \<not> return_by_ref info \<longrightarrow>
       backward_bind env info caller exit lhs st =
         (case assign_by_copy env exit (P env (ST env c) v) (P env (ST env exit) (RETNAME env)) st of
            Inl e \<Rightarrow> Inl e
          | Inr st1 \<Rightarrow> Inr (foreach_wpa (Backward_bind caller exit) st1)) \<and>
       (\<forall>st1. assign_by_copy env exit (P env (ST env c) v) (P env (ST env exit) (RETNAME env)) st = Inr st1 \<longrightarrow>
          (\<exists>st'. backward_bind env info caller exit lhs st = Inr st' \<and>
             trace st' = trace st1 @ map (\<lambda>w. (wpa_name w, Backward_bind caller exit)) (analyses st1)))) \<and>
   (lhs = None \<longrightarrow>
       backward_bind env info caller exit lhs st = Inr (foreach_wpa (Backward_bind caller exit) st) \<and>
       (\<exists>st'. backward_bind env info caller exit lhs st = Inr st' \<and>
          trace st' = trace st @ map (\<lambda>w. (wpa_name w, Backward_bind caller exit)) (analyses st)))"
  by (auto simp add: backward_bind_def assign_by_ref_def trace_foreach_wpa)

lemma assign_by_copy_return_slot_example:
  "assign_by_copy example_env 19 (P example_env (ST example_env 3) ''x'')
     (P example_env (ST example_env 19) (RETNAME example_env)) example_state =
   Inr (example_state\<lparr>trace :=
     [(''aliasing'', Kill_value 19 (Alias_name ''__MAIN__'' ''x'')),
      (''ccp'', Kill_value 19 (Alias_name ''__MAIN__'' ''x'')),
      (''aliasing'', Record_use 19 (Alias_name ''f'' ''__RETNAME__'') POSSIBLE),
      (''ccp'', Record_use 19 (Alias_name ''f'' ''__RETNAME__'') POSSIBLE),
      (''aliasing'', Assign_scalar 19 (Alias_name ''__MAIN__'' ''x'') (Alias_name ''__MAIN__'' ''x'')
         (Abstract_value BOTTOM BOTTOM) POSSIBLE),
      (''ccp'', Assign_scalar 19 (Alias_name ''__MAIN__'' ''x'') (Alias_name ''__MAIN__'' ''x'')
         (Abstract_value BOTTOM BOTTOM) POSSIBLE)]\<rparr>)"
  by (simp add: assign_by_copy_def kill_value_def kill_value_body_def is_must_def
        get_all_referenced_names_def get_all_referenced_names_body_def combine_results_def
        copy_value_def get_abstract_value_def record_use_def foreach_wpa_def call_wpa_def
        example_env_def base_env_def example_state_def example_wpa_def)

theorem backward_bind_cases_witness:
  "backward_bind example_env (example_info\<lparr>return_by_ref := True\<rparr>) (Some 3) 19 (Some ''x'')
     example_state = Inl (Unimplemented, []) \<and>
   (\<exists>st'. backward_bind example_env example_info (Some 3) 19 (Some ''x'') example_state = Inr st' \<and>
      trace st' =
        [(''aliasing'', Kill_value 19 (Alias_name ''__MAIN__'' ''x'')),
         (''ccp'', Kill_value 19 (Alias_name ''__MAIN__'' ''x'')),
         (''aliasing'', Record_use 19 (Alias_name ''f'' ''__RETNAME__'') POSSIBLE),
         (''ccp'', Record_use 19 (Alias_name ''f'' ''__RETNAME__'') POSSIBLE),
         (''aliasing'', Assign_scalar 19 (Alias_name ''__MAIN__'' ''x'') (Alias_name ''__MAIN__'' ''x'')
            (Abstract_value BOTTOM BOTTOM) POSSIBLE),
         (''ccp'', Assign_scalar 19 (Alias_name ''__MAIN__'' ''x'') (Alias_name ''__MAIN__'' ''x'')
            (Abstract_value BOTTOM BOTTOM) POSSIBLE),
         (''aliasing'', Backward_bind (Some 3) 19),
         (''ccp'', Backward_bind (Some 3) 19)]) \<and>
   (\<exists>st'. backward_bind example_env example_info None 19 None example_state = Inr st' \<and>
      trace st' = [(''aliasing'', Backward_bind None 19), (''ccp'', Backward_bind None 19)])"
proof -
  let ?copied = "example_state\<lparr>trace :=
        [(''aliasing'', Kill_value 19 (Alias_name ''__MAIN__'' ''x'')),
         (''ccp'', Kill_value 19 (Alias_name ''__MAIN__'' ''x'')),
         (''aliasing'', Record_use 19 (Alias_name ''f'' ''__RETNAME__'') POSSIBLE),
         (''ccp'', Record_use 19 (Alias_name ''f'' ''__RETNAME__'') POSSIBLE),
         (''aliasing'', Assign_scalar 19 (Alias_name ''__MAIN__'' ''x'') (Alias_name ''__MAIN__'' ''x'')
            (Abstract_value BOTTOM BOTTOM) POSSIBLE),
         (''ccp'', Assign_scalar 19 (Alias_name ''__MAIN__'' ''x'') (Alias_name ''__MAIN__'' ''x'')
            (Abstract_value BOTTOM BOTTOM) POSSIBLE)]\<rparr>"
  have r: "return_by_ref (example_info\<lparr>return_by_ref := True\<rparr>)"
    and c: "\<not> return_by_ref example_info"
    by (simp_all add: example_info_def)
  have "\<forall>v c. Some ''x'' = Some v \<and> Some (3::nat) = Some c \<and>
            return_by_ref (example_info\<lparr>return_by_ref := True\<rparr>) \<longrightarrow>
          backward_bind example_env (example_info\<lparr>return_by_ref := True\<rparr>) (Some 3) 19 (Some ''x'')
            example_state = Inl (Unimplemented, trace example_state)"
    by (rule backward_bind_cases
          [where lhs = "Some ''x''" and caller = "Some 3"
             and info = "example_info\<lparr>return_by_ref := True\<rparr>" and env = example_env
             and exit = 19 and st = example_state, THEN conjunct1])
  with r have 1: "backward_bind example_env (example_info\<lparr>return_by_ref := True\<rparr>) (Some 3) 19
                    (Some ''x'') example_state = Inl (Unimplemented, [])"
    by (simp add: example_state_def)
  have "\<forall>v c. Some ''x'' = Some v \<and> Some (3::nat) = Some c \<and> \<not> return_by_ref example_info \<longrightarrow>
       backward_bind example_env example_info (Some 3) 19 (Some ''x'') example_state =
         (case assign_by_copy example_env 19 (P example_env (ST example_env c) v)
                 (P example_env (ST example_env 19) (RETNAME example_env)) example_state of
            Inl e \<Rightarrow> Inl e
          | Inr st1 \<Rightarrow> Inr (foreach_wpa (Backward_bind (Some 3) 19) st1)) \<and>
       (\<forall>st1. assign_by_copy example_env 19 (P example_env (ST example_env c) v)
                 (P example_env (ST example_env 19) (RETNAME example_env)) example_state = Inr st1 \<longrightarrow>
          (\<exists>st'. backward_bind example_env example_info (Some 3) 19 (Some ''x'') example_state = Inr st' \<and>
             trace st' = trace st1 @ map (\<lambda>w. (wpa_name w, Backward_bind (Some 3) 19)) (analyses st1)))"
    by (rule backward_bind_cases
          [where lhs = "Some ''x''" and caller = "Some 3" and info = example_info
             and env = example_env and exit = 19 and st = example_state,
           THEN conjunct2, THEN conjunct1])
  with c have "\<forall>st1. assign_by_copy example_env 19 (P example_env (ST example_env 3) ''x'')
                 (P example_env (ST example_env 19) (RETNAME example_env)) example_state = Inr st1 \<longrightarrow>
          (\<exists>st'. backward_bind example_env example_info (Some 3) 19 (Some ''x'') example_state = Inr st' \<and>
             trace st' = trace st1 @ map (\<lambda>w. (wpa_name w, Backward_bind (Some 3) 19)) (analyses st1))"
    by blast
  then have "assign_by_copy example_env 19 (P example_env (ST example_env 3) ''x'')
                 (P example_env (ST example_env 19) (RETNAME example_env)) example_state = Inr ?copied \<longrightarrow>
          (\<exists>st'. backward_bind example_env example_info (Some 3) 19 (Some ''x'') example_state = Inr st' \<and>
             trace st' = trace ?copied @ map (\<lambda>w. (wpa_name w, Backward_bind (Some 3) 19)) (analyses ?copied))"
    by (rule spec)
  from this assign_by_copy_return_slot_example
  have "\<exists>st'. backward_bind example_env example_info (Some 3) 19 (Some ''x'') example_state = Inr st' \<and>
             trace st' = trace ?copied @ map (\<lambda>w. (wpa_name w, Backward_bind (Some 3) 19)) (analyses ?copied)"
    by (rule mp)
  then obtain st2 where
    b2: "backward_bind example_env example_info (Some 3) 19 (Some ''x'') example_state = Inr st2"
    and t2: "trace st2 = trace ?copied @ map (\<lambda>w. (wpa_name w, Backward_bind (Some 3) 19)) (analyses ?copied)"
    by (elim exE conjE)
  from t2 have "trace st2 =
        [(''aliasing'', Kill_value 19 (Alias_name ''__MAIN__'' ''x'')),
         (''ccp'', Kill_value 19 (Alias_name ''__MAIN__'' ''x'')),
         (''aliasing'', Record_use 19 (Alias_name ''f'' ''__RETNAME__'') POSSIBLE),
         (''ccp'', Record_use 19 (Alias_name ''f'' ''__RETNAME__'') POSSIBLE),
         (''aliasing'', Assign_scalar 19 (Alias_name ''__MAIN__'' ''x'') (Alias_name ''__MAIN__'' ''x'')
            (Abstract_value BOTTOM BOTTOM) POSSIBLE),
         (''ccp'', Assign_scalar 19 (Alias_name ''__MAIN__'' ''x'') (Alias_name ''__MAIN__'' ''x'')
            (Abstract_value BOTTOM BOTTOM) POSSIBLE),
         (''aliasing'', Backward_bind (Some 3) 19),
         (''ccp'', Backward_bind (Some 3) 19)]"
    by (simp add: example_state_def example_wpa_def)
  with b2 have 2: "\<exists>st'. backward_bind example_env example_info (Some 3) 19 (Some ''x'') example_state = Inr st' \<and>
      trace st' =
        [(''aliasing'', Kill_value 19 (Alias_name ''__MAIN__'' ''x'')),
         (''ccp'', Kill_value 19 (Alias_name ''__MAIN__'' ''x'')),
         (''aliasing'', Record_use 19 (Alias_name ''f'' ''__RETNAME__'') POSSIBLE),
         (''ccp'', Record_use 19 (Alias_name ''f'' ''__RETNAME__'') POSSIBLE),
         (''aliasing'', Assign_scalar 19 (Alias_name ''__MAIN__'' ''x'') (Alias_name ''__MAIN__'' ''x'')
            (Abstract_value BOTTOM BOTTOM) POSSIBLE),
         (''ccp'', Assign_scalar 19 (Alias_name ''__MAIN__'' ''x'') (Alias_name ''__MAIN__'' ''x'')
            (Abstract_value BOTTOM BOTTOM) POSSIBLE),
         (''aliasing'', Backward_bind (Some 3) 19),
         (''ccp'', Backward_bind (Some 3) 19)]"
    by (intro exI conjI)
  have "(None :: string option) = None \<longrightarrow>
       backward_bind example_env example_info None 19 None example_state =
         Inr (foreach_wpa (Backward_bind None 19) example_state) \<and>
       (\<exists>st'. backward_bind example_env example_info None 19 None example_state = Inr st' \<and>
          trace st' = trace example_state @
            map (\<lambda>w. (wpa_name w, Backward_bind None 19)) (analyses example_state))"
    by (rule backward_bind_cases
          [where lhs = None and caller = None and info = example_info
             and env = example_env and exit = 19 and st = example_state,
           THEN conjunct2, THEN conjunct2])
  then obtain st3 where
    b3: "backward_bind example_env example_info None 19 None example_state = Inr st3"
    and t3: "trace st3 = trace example_state @
            map (\<lambda>w. (wpa_name w, Backward_bind None 19)) (analyses example_state)"
    by (elim impE exE conjE) simp_all
  from t3 have "trace st3 = [(''aliasing'', Backward_bind None 19), (''ccp'', Backward_bind None 19)]"
    by (simp add: example_state_def example_wpa_def)
  with b3 have 3: "\<exists>st'. backward_bind example_env example_info None 19 None example_state = Inr st' \<and>
      trace st' = [(''aliasing'', Backward_bind None 19), (''ccp'', Backward_bind None 19)]"
    by (intro exI conjI)
  from 1 2 3 show ?thesis by (intro conjI)
qed

text \<open>
  C8 as stated fails for a callee that returns by reference: the assignment by reference
  is \<^verbatim>\<open>phc_TODO ()\<close>, and the run aborts with no call made to the two analyses, so no
  \<^verbatim>\<open>backward_bind\<close> hook is called.
\<close>

theorem backward_bind_by_ref_counterexample:
  "backward_bind example_env (example_info\<lparr>return_by_ref := True\<rparr>) (Some 3) 19 (Some ''x'')
     example_state = Inl (Unimplemented, []) \<and>
   map wpa_name (analyses example_state) = [''aliasing'', ''ccp'']"
  by (simp add: backward_bind_def assign_by_ref_def example_info_def example_state_def
        example_wpa_def)


section \<open>Pulling from the executable predecessors\<close>

lemma pull_preds_calls:
  "pull_preds w b ex first preds st =
     fold (\<lambda>c. call_wpa c w) (merge_calls b first (map get_source (filter ex preds))) st"
proof (induction preds arbitrary: first st)
  case Nil
  show ?case by (simp add: merge_calls_def)
next
  case (Cons p preds)
  show ?case
  proof (cases "ex p")
    case False
    then show ?thesis using Cons.IH [of first st] by simp
  next
    case True
    show ?thesis
    proof (cases first)
      case True
      with \<open>ex p\<close> Cons.IH [of False "call_wpa (Pull_first_pred b (get_source p)) w st"]
      show ?thesis by (simp add: merge_calls_def)
    next
      case False
      with \<open>ex p\<close> Cons.IH [of False "call_wpa (Pull_pred b (get_source p)) w st"]
      show ?thesis by (simp add: merge_calls_def)
    qed
  qed
qed

lemma pull_analysis_calls:
  "pull_analysis b preds ex w st =
     fold (\<lambda>c. call_wpa c w) (pull_calls b (map get_source (filter ex preds))) st"
  by (simp add: pull_analysis_def pull_calls_def pull_preds_calls)

lemma fold_calls_trace:
  "trace (fold (\<lambda>c. call_wpa c w) cs st) = trace st @ map (\<lambda>c. (wpa_name w, c)) cs"
  by (induction cs arbitrary: st) (simp_all add: call_wpa_def)

lemma sol_fold_calls:
  "sol (fold (\<lambda>c. call_wpa c w) cs st) = fold (perform w) cs (sol st)"
  by (induction cs arbitrary: st) (simp_all add: call_wpa_def)

lemma fold_pull_analysis_trace:
  "trace (fold (pull_analysis b preds ex) ws st) =
     trace st @ concat (map (\<lambda>w. map (\<lambda>c. (wpa_name w, c))
                                  (pull_calls b (map get_source (filter ex preds)))) ws)"
proof (induction ws arbitrary: st)
  case Nil
  show ?case by simp
next
  case (Cons w ws)
  have "trace (pull_analysis b preds ex w st) =
          trace st @ map (\<lambda>c. (wpa_name w, c)) (pull_calls b (map get_source (filter ex preds)))"
    by (simp only: pull_analysis_calls fold_calls_trace)
  with Cons.IH [of "pull_analysis b preds ex w st"] show ?case by simp
qed

lemma fold_pull_analysis_sol:
  "sol (fold (pull_analysis b preds ex) ws st) =
     fold (\<lambda>w. fold (perform w) (pull_calls b (map get_source (filter ex preds)))) ws (sol st)"
proof (induction ws arbitrary: st)
  case Nil
  show ?case by simp
next
  case (Cons w ws)
  have "sol (pull_analysis b preds ex w st) =
          fold (perform w) (pull_calls b (map get_source (filter ex preds))) (sol st)"
    by (simp only: pull_analysis_calls sol_fold_calls)
  with Cons.IH [of "pull_analysis b preds ex w st"] show ?case by simp
qed

lemma pull_results_cong:
  fixes st :: "'s analysis_state"
  assumes "filter ex preds1 = filter ex preds2"
  shows "pull_results b preds1 ex st = pull_results b preds2 ex st"
proof -
  have "pull_analysis b preds1 ex w s = pull_analysis b preds2 ex w s"
    for w and s :: "'s analysis_state"
    by (simp only: pull_analysis_calls assms)
  then have "pull_analysis b preds1 ex = (pull_analysis b preds2 ex :: 's wpa \<Rightarrow> _)"
    by (intro ext)
  then show ?thesis by (simp only: pull_results_def)
qed

lemma join_merge:
  assumes "pull_protocol w IN OUT join"
  shows "IN (fold (perform w) (map (Pull_pred b) ps) s) b = fold (\<lambda>p x. join x (OUT s p)) ps (IN s b) \<and>
         OUT (fold (perform w) (map (Pull_pred b) ps) s) = OUT s"
  using assms
proof (induction ps arbitrary: s)
  case Nil
  then show ?case by simp
next
  case (Cons p ps)
  from Cons.prems have 1: "IN (perform w (Pull_pred b p) s) b = join (IN s b) (OUT s p)"
    and 2: "OUT (perform w (Pull_pred b p) s) = OUT s"
    by (simp_all add: pull_protocol_def)
  from Cons.IH [OF Cons.prems, of "perform w (Pull_pred b p) s"] 1 2
  show ?case by simp
qed

lemma pull_calls_join:
  assumes "pull_protocol w IN OUT join"
  shows "IN (fold (perform w) (pull_calls b (p # ps)) s) b =
           fold (\<lambda>q x. join x (OUT s q)) ps (OUT s p)"
proof -
  let ?s0 = "perform w (Pull_init b) s"
  let ?s1 = "perform w (Pull_first_pred b p) ?s0"
  from assms have o0: "OUT ?s0 = OUT s" and o1: "OUT ?s1 = OUT ?s0"
    and i1: "IN ?s1 b = OUT ?s0 p"
    by (simp_all add: pull_protocol_def)
  have "fold (perform w) (pull_calls b (p # ps)) s =
          perform w (Pull_finish b) (fold (perform w) (map (Pull_pred b) ps) ?s1)"
    by (simp add: pull_calls_def merge_calls_def)
  moreover from assms
  have "IN (perform w (Pull_finish b) s') b = IN s' b" for s'
    by (simp add: pull_protocol_def)
  ultimately show ?thesis
    using join_merge [OF assms, of b ps ?s1] o0 o1 i1 by simp
qed

lemma pull_calls_none:
  assumes "pull_protocol w IN OUT join"
  shows "IN (fold (perform w) (pull_calls b []) s) b = IN (perform w (Pull_init b) s) b"
  using assms by (simp add: pull_calls_def merge_calls_def pull_protocol_def)

lemma leaves_alone_preds:
  "leaves_alone w view \<Longrightarrow> view (fold (perform w) (map (Pull_pred b) ps) s) = view s"
  by (induction ps arbitrary: s) (simp_all add: leaves_alone_def)

lemma leaves_alone_calls:
  assumes "leaves_alone w view"
  shows "view (fold (perform w) (pull_calls b sources) s) = view s"
proof (cases sources)
  case Nil
  with assms show ?thesis
    by (simp add: pull_calls_def merge_calls_def leaves_alone_def)
next
  case (Cons p ps)
  from assms have f: "view (perform w (Pull_finish b) s') = view s'" for s'
    by (simp add: leaves_alone_def)
  from assms have i: "view (perform w (Pull_first_pred b p) (perform w (Pull_init b) s)) = view s"
    by (simp add: leaves_alone_def)
  from Cons f i
    leaves_alone_preds [OF assms, of b ps "perform w (Pull_first_pred b p) (perform w (Pull_init b) s)"]
  show ?thesis
    by (simp add: pull_calls_def merge_calls_def)
qed

lemma leaves_alone_analyses:
  "\<forall>w \<in> set ws. leaves_alone w view \<Longrightarrow>
   view (fold (\<lambda>w. fold (perform w) (pull_calls b sources)) ws s) = view s"
  by (induction ws arbitrary: s) (simp_all add: leaves_alone_calls)

text \<open>The IN state of one analysis after all the analyses have pulled, in terms of what
  that analysis does with its own calls.\<close>

lemma pull_results_in:
  fixes IN :: "'s \<Rightarrow> bb \<Rightarrow> 'l"
  assumes a: "analyses st = before @ w # after"
    and o: "\<forall>w' \<in> set (before @ after). leaves_alone w' IN \<and> leaves_alone w' OUT"
  shows "\<exists>s1. IN s1 = IN (sol st) \<and> OUT s1 = OUT (sol st) \<and>
           IN (sol (pull_results b preds ex st)) =
             IN (fold (perform w) (pull_calls b (map get_source (filter ex preds))) s1)"
proof -
  let ?cs = "pull_calls b (map get_source (filter ex preds))"
  let ?F = "\<lambda>w. fold (perform w) ?cs"
  let ?s1 = "fold ?F before (sol st)"
  from o have ob: "\<forall>w' \<in> set before. leaves_alone w' IN"
    and ob': "\<forall>w' \<in> set before. leaves_alone w' OUT"
    and oa: "\<forall>w' \<in> set after. leaves_alone w' IN"
    by simp_all
  have "sol (pull_results b preds ex st) = fold ?F (before @ w # after) (sol st)"
    by (simp only: pull_results_def fold_pull_analysis_sol a)
  then have "sol (pull_results b preds ex st) = fold ?F after (?F w ?s1)"
    by simp
  with leaves_alone_analyses [OF oa, of b "map get_source (filter ex preds)" "?F w ?s1"]
  have "IN (sol (pull_results b preds ex st)) = IN (?F w ?s1)"
    by simp
  moreover from leaves_alone_analyses [OF ob, of b "map get_source (filter ex preds)" "sol st"]
  have "IN ?s1 = IN (sol st)" .
  moreover from leaves_alone_analyses [OF ob', of b "map get_source (filter ex preds)" "sol st"]
  have "OUT ?s1 = OUT (sol st)" .
  ultimately show ?thesis by blast
qed

text \<open>
  C4. The state after \<^verbatim>\<open>pull_results\<close> depends on the executable predecessor edges
  only: it is the same for the list of all predecessors and for the list of the
  executable ones, and a predecessor whose edge is not executable can be removed without
  changing it. Every analysis, in turn, is initialised, seeded by the first executable
  predecessor, merged with each further one, and finished: these are the calls made, and
  the results after \<^verbatim>\<open>pull_results\<close> are the results of these calls. For an analysis of
  the list that seeds its IN state with the predecessor's OUT state and merges by a join
  (the other analyses leaving its states alone), the IN state of the block after
  \<^verbatim>\<open>pull_results\<close> is the join of the OUT states of exactly the executable predecessors,
  and the initial IN state when no predecessor is executable.
\<close>

theorem pull_results_executable_predecessors:
  "pull_results b (filter ex preds) ex st = pull_results b preds ex st \<and>
   (\<forall>pred. \<not> ex pred \<longrightarrow>
      pull_results b (preds1 @ pred # preds2) ex st = pull_results b (preds1 @ preds2) ex st) \<and>
   trace (pull_results b preds ex st) =
     trace st @ concat (map (\<lambda>w. map (\<lambda>c. (wpa_name w, c))
                                  (pull_calls b (map get_source (filter ex preds)))) (analyses st)) \<and>
   sol (pull_results b preds ex st) =
     fold (\<lambda>w. fold (perform w) (pull_calls b (map get_source (filter ex preds))))
       (analyses st) (sol st) \<and>
   (\<forall>before w after IN OUT join p ps.
      analyses st = before @ w # after \<and> pull_protocol w IN OUT join \<and>
      (\<forall>w' \<in> set (before @ after). leaves_alone w' IN \<and> leaves_alone w' OUT) \<and>
      map get_source (filter ex preds) = p # ps \<longrightarrow>
      IN (sol (pull_results b preds ex st)) b =
        fold (\<lambda>q x. join x (OUT (sol st) q)) ps (OUT (sol st) p)) \<and>
   (\<forall>before w after IN OUT join bottom.
      analyses st = before @ w # after \<and> pull_protocol w IN OUT join \<and>
      (\<forall>w' \<in> set (before @ after). leaves_alone w' IN \<and> leaves_alone w' OUT) \<and>
      (\<forall>b s. IN (perform w (Pull_init b) s) b = bottom) \<and>
      filter ex preds = [] \<longrightarrow>
      IN (sol (pull_results b preds ex st)) b = bottom)"
proof (intro conjI allI impI)
  show "pull_results b (filter ex preds) ex st = pull_results b preds ex st"
    by (rule pull_results_cong) simp
next
  fix pred assume "\<not> ex pred"
  then show "pull_results b (preds1 @ pred # preds2) ex st = pull_results b (preds1 @ preds2) ex st"
    by (intro pull_results_cong) simp
next
  show "trace (pull_results b preds ex st) =
     trace st @ concat (map (\<lambda>w. map (\<lambda>c. (wpa_name w, c))
                                  (pull_calls b (map get_source (filter ex preds)))) (analyses st))"
    by (simp only: pull_results_def fold_pull_analysis_trace)
next
  show "sol (pull_results b preds ex st) =
     fold (\<lambda>w. fold (perform w) (pull_calls b (map get_source (filter ex preds))))
       (analyses st) (sol st)"
    by (simp only: pull_results_def fold_pull_analysis_sol)
next
  fix before w after and IN :: "'a \<Rightarrow> nat \<Rightarrow> 'b" and OUT join p ps
  assume h: "analyses st = before @ w # after \<and> pull_protocol w IN OUT join \<and>
      (\<forall>w' \<in> set (before @ after). leaves_alone w' IN \<and> leaves_alone w' OUT) \<and>
      map get_source (filter ex preds) = p # ps"
  from h have a: "analyses st = before @ w # after"
    and pr: "pull_protocol w IN OUT join"
    and o: "\<forall>w' \<in> set (before @ after). leaves_alone w' IN \<and> leaves_alone w' OUT"
    and s: "map get_source (filter ex preds) = p # ps"
    by blast+
  from pull_results_in [OF a o, of b preds ex] obtain s1 where
    i: "IN s1 = IN (sol st)" and u: "OUT s1 = OUT (sol st)"
    and r: "IN (sol (pull_results b preds ex st)) =
              IN (fold (perform w) (pull_calls b (map get_source (filter ex preds))) s1)"
    by blast
  from r s pull_calls_join [OF pr, of b p ps s1] u
  show "IN (sol (pull_results b preds ex st)) b =
        fold (\<lambda>q x. join x (OUT (sol st) q)) ps (OUT (sol st) p)"
    by simp
next
  fix before w after and IN :: "'a \<Rightarrow> nat \<Rightarrow> 'c" and OUT join bottom
  assume h: "analyses st = before @ w # after \<and> pull_protocol w IN OUT join \<and>
      (\<forall>w' \<in> set (before @ after). leaves_alone w' IN \<and> leaves_alone w' OUT) \<and>
      (\<forall>b s. IN (perform w (Pull_init b) s) b = bottom) \<and>
      filter ex preds = []"
  from h have a: "analyses st = before @ w # after"
    and pr: "pull_protocol w IN OUT join"
    and o: "\<forall>w' \<in> set (before @ after). leaves_alone w' IN \<and> leaves_alone w' OUT"
    and z: "\<forall>b s. IN (perform w (Pull_init b) s) b = bottom"
    and s: "filter ex preds = []"
    by blast+
  from pull_results_in [OF a o, of b preds ex] obtain s1 where
    r: "IN (sol (pull_results b preds ex st)) =
          IN (fold (perform w) (pull_calls b (map get_source (filter ex preds))) s1)"
    by blast
  from r s pull_calls_none [OF pr, of b s1] z
  show "IN (sol (pull_results b preds ex st)) b = bottom"
    by simp
qed

theorem pull_results_executable_predecessors_witness:
  "\<not> example_executable (Edge 1 2 3) \<and>
   pull_protocol max_wpa fst snd max \<and>
   leaves_alone quiet_wpa fst \<and> leaves_alone quiet_wpa snd \<and>
   pull_results 3 [Edge 0 1 3, Edge 1 2 3, Edge 2 4 3] example_executable max_state =
     pull_results 3 [Edge 0 1 3, Edge 2 4 3] example_executable max_state \<and>
   fst (sol (pull_results 3 [Edge 0 1 3, Edge 1 2 3, Edge 2 4 3] example_executable max_state)) 3
     = 40 \<and>
   fst (sol (pull_results 3 [Edge 1 2 3] example_executable max_state)) 3 = 0"
proof -
  note T = pull_results_executable_predecessors
             [where b = 3 and ex = example_executable
                and preds = "[Edge 0 1 3, Edge 1 2 3, Edge 2 4 3]"
                and ?preds1.0 = "[Edge 0 1 3]" and ?preds2.0 = "[Edge 2 4 3]" and st = max_state]
  note U = pull_results_executable_predecessors
             [where b = 3 and ex = example_executable
                and preds = "[Edge 1 2 3]" and st = max_state]
  have n: "\<not> example_executable (Edge 1 2 3)"
    by (simp add: example_executable_def)
  have p: "pull_protocol max_wpa fst snd max"
    by (simp add: pull_protocol_def max_wpa_def)
  have q: "leaves_alone quiet_wpa fst" "leaves_alone quiet_wpa snd"
    by (simp_all add: leaves_alone_def quiet_wpa_def)
  have a: "analyses max_state = [quiet_wpa] @ max_wpa # []"
    by (simp add: max_state_def)
  from q have o: "\<forall>w' \<in> set ([quiet_wpa] @ []). leaves_alone w' fst \<and> leaves_alone w' snd"
    by simp
  have s: "map get_source (filter example_executable [Edge 0 1 3, Edge 1 2 3, Edge 2 4 3]) = 1 # [4]"
    by (simp add: example_executable_def)
  have z: "\<forall>b s. fst (perform max_wpa (Pull_init b) s) b = 0"
    by (simp add: max_wpa_def)
  have e: "filter example_executable [Edge 1 2 3] = []"
    by (simp add: example_executable_def)
  from T [THEN conjunct2, THEN conjunct1, THEN spec, THEN mp, OF n]
  have 1: "pull_results 3 [Edge 0 1 3, Edge 1 2 3, Edge 2 4 3] example_executable max_state =
     pull_results 3 [Edge 0 1 3, Edge 2 4 3] example_executable max_state"
    by simp
  from T [THEN conjunct2, THEN conjunct2, THEN conjunct2, THEN conjunct2, THEN conjunct1,
          rule_format, of "[quiet_wpa]" max_wpa "[]" fst snd max 1 "[4]"] a p o s
  have "fst (sol (pull_results 3 [Edge 0 1 3, Edge 1 2 3, Edge 2 4 3] example_executable max_state)) 3
          = fold (\<lambda>q x. max x (snd (sol max_state) q)) [4] (snd (sol max_state) 1)"
    by blast
  then have 2: "fst (sol (pull_results 3 [Edge 0 1 3, Edge 1 2 3, Edge 2 4 3] example_executable max_state)) 3
          = 40"
    by (simp add: max_state_def)
  from U [THEN conjunct2, THEN conjunct2, THEN conjunct2, THEN conjunct2, THEN conjunct2,
          rule_format, of "[quiet_wpa]" max_wpa "[]" fst snd max 0] a p o z e
  have 3: "fst (sol (pull_results 3 [Edge 1 2 3] example_executable max_state)) 3 = 0"
    by blast
  from n p q 1 2 3 show ?thesis by (intro conjI)
qed

section \<open>The worklist\<close>

lemma and_then_Inr:
  "and_then m f = Some (Inr y) \<longleftrightarrow> (\<exists>x. m = Some (Inr x) \<and> f x = Some (Inr y))"
  by (auto simp add: and_then_def split: option.splits sum.splits)

lemma on_an_Inr:
  "on_an f st = Some (Inr st') \<longleftrightarrow> (\<exists>a. f (an st) = Inr a \<and> st' = st\<lparr>an := a\<rparr>)"
  by (auto simp add: on_an_def split: sum.splits)

lemma on_an_flags: "on_an f st = Some (Inr st') \<Longrightarrow> is_executable st' = is_executable st"
  by (auto simp add: on_an_Inr)

text \<open>
  C7. The edges pushed after a changed branch block are those \<^verbatim>\<open>get_branch_successors\<close>
  returns: when constant propagation knows the branch to be true the false edge is
  left out, when it knows it to be false the true edge is left out, and when it knows
  neither the false edge and the true edge are both pushed.
\<close>

theorem get_branch_successors_feasible:
  "(branch_known_true env (sol st) b (index_name env (VN env (ST env b) v)) \<longrightarrow>
      get_branch_successors env g b v st =
        (if branch_known_false env (sol st) b (index_name env (VN env (ST env b) v)) then []
         else [get_true_successor_edge g b])) \<and>
   (branch_known_false env (sol st) b (index_name env (VN env (ST env b) v)) \<longrightarrow>
      get_branch_successors env g b v st =
        (if branch_known_true env (sol st) b (index_name env (VN env (ST env b) v)) then []
         else [get_false_successor_edge g b])) \<and>
   (\<not> branch_known_true env (sol st) b (index_name env (VN env (ST env b) v)) \<and>
    \<not> branch_known_false env (sol st) b (index_name env (VN env (ST env b) v)) \<longrightarrow>
      get_branch_successors env g b v st = [get_false_successor_edge g b, get_true_successor_edge g b]) \<and>
   (block g b = Branch_block v \<longrightarrow>
      next_edges env g b st = Inr (get_branch_successors env g b v st))"
  by (simp add: get_branch_successors_def next_edges_def Let_def)


theorem get_branch_successors_feasible_witness:
  "get_branch_successors literal_env recursive_cfg 11 ''x'' (literal_state (Some (BOOL True)))
     = [Edge 1 11 12] \<and>
   get_branch_successors literal_env recursive_cfg 11 ''x'' (literal_state (Some (BOOL False)))
     = [Edge 2 11 14] \<and>
   get_branch_successors literal_env recursive_cfg 11 ''x'' (literal_state None)
     = [Edge 2 11 14, Edge 1 11 12] \<and>
   next_edges literal_env recursive_cfg 11 (literal_state None) = Inr [Edge 2 11 14, Edge 1 11 12]"
proof -
  have e: "branch_known_true literal_env = (\<lambda>s b c. s = Some (BOOL True))"
    "branch_known_false literal_env = (\<lambda>s b c. s = Some (BOOL False))"
    by (simp_all add: literal_env_def)
  have g: "get_true_successor_edge recursive_cfg 11 = Edge 1 11 12"
    "get_false_successor_edge recursive_cfg 11 = Edge 2 11 14"
    "block recursive_cfg 11 = Branch_block ''x''"
    by (simp_all add: recursive_cfg_def)
  from get_branch_successors_feasible
         [where env = literal_env and g = recursive_cfg and b = 11 and v = "''x''"
            and st = "literal_state (Some (BOOL True))"]
  have 1: "get_branch_successors literal_env recursive_cfg 11 ''x'' (literal_state (Some (BOOL True)))
             = [Edge 1 11 12]"
    by (simp add: e g literal_state_def)
  from get_branch_successors_feasible
         [where env = literal_env and g = recursive_cfg and b = 11 and v = "''x''"
            and st = "literal_state (Some (BOOL False))"]
  have 2: "get_branch_successors literal_env recursive_cfg 11 ''x'' (literal_state (Some (BOOL False)))
             = [Edge 2 11 14]"
    by (simp add: e g literal_state_def)
  from get_branch_successors_feasible
         [where env = literal_env and g = recursive_cfg and b = 11 and v = "''x''"
            and st = "literal_state None"]
  have 3: "get_branch_successors literal_env recursive_cfg 11 ''x'' (literal_state None)
             = [Edge 2 11 14, Edge 1 11 12] \<and>
           next_edges literal_env recursive_cfg 11 (literal_state None) = Inr [Edge 2 11 14, Edge 1 11 12]"
    by (simp add: e g literal_state_def)
  from 1 2 3 show ?thesis by (intro conjI) simp_all
qed

lemma returnsD: "returns r \<Longrightarrow> \<exists>x. r = Some (Inr x)"
  by (auto simp add: returns_def split: option.splits sum.splits)

lemma analyse_block_Inr:
  assumes "analyse_block env invoke m g b st = Some (Inr (changed, st'))"
  shows "changed = list_ex (\<lambda>w. solution_changed w b (sol (an st'))) (analyses (an st'))"
  using assms by (auto simp add: analyse_block_def and_then_Inr Let_def)

text \<open>
  C6, as amended. When a round of the worklist loop completes, the successor edges of the
  popped edge's target are pushed if and only if the popped edge was not yet executable
  or some analysis reported that its solution at the target changed.
\<close>

theorem worklist_step_pushes:
  assumes "worklist_step env invoke m g e wl st = Some (Inr (wl', st'))"
  shows "\<exists>changed.
           analyse_block env invoke m g (get_target e) (set_executable m e True st)
             = Some (Inr (changed, st')) \<and>
           changed = list_ex (\<lambda>w. solution_changed w (get_target e) (sol (an st'))) (analyses (an st')) \<and>
           (\<not> is_executable st m e \<or> changed \<longrightarrow>
              (\<exists>es. next_edges env g (get_target e) (an st') = Inr es \<and> wl' = wl @ es)) \<and>
           (is_executable st m e \<and> \<not> changed \<longrightarrow> wl' = wl)"
proof -
  from assms obtain changed st1 where
    a: "analyse_block env invoke m g (get_target e) (set_executable m e True st) = Some (Inr (changed, st1))"
    and r: "(if is_executable st m e = False \<or> changed
             then (case next_edges env g (get_target e) (an st1) of
                     Inl f \<Rightarrow> Some (Inl f)
                   | Inr es \<Rightarrow> Some (Inr (wl @ es, st1)))
             else Some (Inr (wl, st1))) = Some (Inr (wl', st'))"
    by (auto simp add: worklist_step_def and_then_Inr Let_def)
  from r have s: "st1 = st'"
    by (auto split: if_splits sum.splits)
  from r s have p: "\<not> is_executable st m e \<or> changed \<longrightarrow>
      (\<exists>es. next_edges env g (get_target e) (an st') = Inr es \<and> wl' = wl @ es)"
    by (auto split: if_splits sum.splits)
  from r have q: "is_executable st m e \<and> \<not> changed \<longrightarrow> wl' = wl"
    by (auto split: if_splits sum.splits)
  from a s analyse_block_Inr [of env invoke m g "get_target e" "set_executable m e True st" changed st']
  have c: "changed = list_ex (\<lambda>w. solution_changed w (get_target e) (sol (an st'))) (analyses (an st'))"
    by simp
  from a s p q c show ?thesis by blast
qed


theorem worklist_step_pushes_witness:
  "\<exists>changed wl' st'.
     worklist_step literal_env (invoke_method literal_env recursive_methods 6) ''f'' recursive_cfg
       (Edge 1 11 12) [] literal_engine_state = Some (Inr (wl', st')) \<and>
     analyse_block literal_env (invoke_method literal_env recursive_methods 6) ''f'' recursive_cfg 12
       (set_executable ''f'' (Edge 1 11 12) True literal_engine_state) = Some (Inr (changed, st')) \<and>
     changed = list_ex (\<lambda>w. solution_changed w 12 (sol (an st'))) (analyses (an st')) \<and>
     wl' = [Edge 3 12 13]"
proof -
  have "returns (worklist_step literal_env (invoke_method literal_env recursive_methods 6) ''f''
                   recursive_cfg (Edge 1 11 12) [] literal_engine_state)"
    by code_simp
  then obtain r where "worklist_step literal_env (invoke_method literal_env recursive_methods 6) ''f''
                   recursive_cfg (Edge 1 11 12) [] literal_engine_state = Some (Inr r)"
    by (auto dest: returnsD)
  then obtain wl' st' where
    w: "worklist_step literal_env (invoke_method literal_env recursive_methods 6) ''f''
          recursive_cfg (Edge 1 11 12) [] literal_engine_state = Some (Inr (wl', st'))"
    by (cases r) simp
  have "map_option (map_sum id fst)
          (worklist_step literal_env (invoke_method literal_env recursive_methods 6) ''f''
             recursive_cfg (Edge 1 11 12) [] literal_engine_state) = Some (Inr [Edge 3 12 13])"
    by code_simp
  with w have l: "wl' = [Edge 3 12 13]" by simp
  from worklist_step_pushes [OF w] obtain changed where
    "analyse_block literal_env (invoke_method literal_env recursive_methods 6) ''f'' recursive_cfg
       (get_target (Edge 1 11 12)) (set_executable ''f'' (Edge 1 11 12) True literal_engine_state)
       = Some (Inr (changed, st'))"
    and "changed = list_ex (\<lambda>w. solution_changed w (get_target (Edge 1 11 12)) (sol (an st')))
                     (analyses (an st'))"
    by blast
  with w l show ?thesis by (intro exI [of _ changed] exI [of _ wl'] exI [of _ st']) simp
qed

text \<open>
  C6 as stated fails on the first round over an edge: the edge from block 11 to block 12
  has not been executable, no analysis reports a change at block 12, and the successor
  edge of block 12 is pushed all the same.
\<close>

theorem worklist_step_first_pass_counterexample:
  "map_option (map_sum id fst)
     (analyse_block literal_env (invoke_method literal_env recursive_methods 6) ''f'' recursive_cfg 12
        (set_executable ''f'' (Edge 1 11 12) True literal_engine_state)) = Some (Inr False) \<and>
   map_option (map_sum id fst)
     (worklist_step literal_env (invoke_method literal_env recursive_methods 6) ''f'' recursive_cfg
        (Edge 1 11 12) [] literal_engine_state) = Some (Inr [Edge 3 12 13])"
  by code_simp

section \<open>Executable edges stay executable\<close>

lemma set_executable_flags:
  "is_executable (set_executable m e v st) m' =
     (if m' = m then (is_executable st m)(e := v) else is_executable st m')"
  by (simp add: set_executable_def)

lemma fold_reset_flags:
  "is_executable (fold (\<lambda>e. set_executable m e False) es st) m' e' =
     (if m' = m \<and> e' \<in> set es then False else is_executable st m' e')"
  by (induction es arbitrary: st) (auto simp add: set_executable_flags)

lemma reset_edges_flags:
  "is_executable (reset_edges m g st) m' e' =
     (if m' = m \<and> e' \<in> set (get_all_edges g) then False else is_executable st m' e')"
  by (simp add: reset_edges_def fold_reset_flags)

lemma visit_block_frame:
  assumes f: "frames invoke orc" and c: "calls_avoid orc g m"
    and v: "visit_block env invoke g b st = Some (Inr st')"
  shows "is_executable st' m = is_executable st m"
proof (cases "block g b")
  case (Statement_block s)
  show ?thesis
  proof (cases s)
    case (Invoke lhs mi)
    with Statement_block v have i: "invoke mi (Some b) lhs st = Some (Inr st')"
      by (simp add: visit_block_def)
    from c Statement_block Invoke
    have "\<forall>callee. method_name mi = METHOD_NAME callee \<longrightarrow> (callee, m) \<notin> (call_edges orc)\<^sup>*"
      unfolding calls_avoid_def by blast
    with f i show ?thesis unfolding frames_def by blast
  next
    case Other_statement
    with Statement_block v show ?thesis
      by (simp add: visit_block_def on_an_flags)
  qed
qed (use v in \<open>auto simp add: visit_block_def\<close>)

lemma analyse_block_frame:
  assumes f: "frames invoke orc" and c: "calls_avoid orc g m"
    and a: "analyse_block env invoke m0 g b st = Some (Inr (changed, st'))"
  shows "is_executable st' m = is_executable st m"
proof -
  from a obtain st1 where
    v: "visit_block env invoke g b
          (st\<lparr>an := pull_results b (get_predecessor_edges g b) (is_executable st m0) (an st)\<rparr>)
        = Some (Inr st1)"
    and s: "st' = st1\<lparr>an := foreach_wpa (Aggregate_results b) (an st1)\<rparr>"
    by (auto simp add: analyse_block_def and_then_Inr Let_def)
  from visit_block_frame [OF f c v] s show ?thesis by simp
qed

lemma worklist_step_flags:
  assumes f: "frames invoke orc" and c: "calls_avoid orc g m"
    and w: "worklist_step env invoke m0 g e wl st = Some (Inr (wl', st'))"
  shows "is_executable st' m = is_executable (set_executable m0 e True st) m"
proof -
  from w obtain changed st1 where
    a: "analyse_block env invoke m0 g (get_target e) (set_executable m0 e True st) = Some (Inr (changed, st1))"
    and r: "(if is_executable st m0 e = False \<or> changed
             then (case next_edges env g (get_target e) (an st1) of
                     Inl f \<Rightarrow> Some (Inl f)
                   | Inr es \<Rightarrow> Some (Inr (wl @ es, st1)))
             else Some (Inr (wl, st1))) = Some (Inr (wl', st'))"
    by (auto simp add: worklist_step_def and_then_Inr Let_def)
  from r have "st1 = st'" by (auto split: if_splits sum.splits)
  with analyse_block_frame [OF f c a] show ?thesis by simp
qed

lemma worklist_frame:
  "worklist env invoke m0 g fuel wl st = Some (Inr st') \<Longrightarrow>
   frames invoke orc \<Longrightarrow> calls_avoid orc g m \<Longrightarrow>
     (m \<noteq> m0 \<longrightarrow> is_executable st' m = is_executable st m) \<and>
     (\<forall>e. is_executable st m e \<longrightarrow> is_executable st' m e)"
proof (induction env invoke m0 g fuel wl st rule: worklist.induct)
  case (1 env invoke m0 g fuel st)
  then show ?case by simp
next
  case (2 env invoke m0 g e wl st)
  then show ?case by simp
next
  case (3 env invoke m0 g fuel e wl st)
  from "3.prems"(1) obtain wl1 st1 where
    s: "worklist_step env invoke m0 g e wl st = Some (Inr (wl1, st1))"
    and r: "worklist env invoke m0 g fuel wl1 st1 = Some (Inr st')"
    by (auto simp add: and_then_Inr)
  from worklist_step_flags [OF "3.prems"(2) "3.prems"(3) s]
  have 1: "is_executable st1 m = is_executable (set_executable m0 e True st) m" .
  from "3.IH" [OF r "3.prems"(2) "3.prems"(3)] have
    2: "(m \<noteq> m0 \<longrightarrow> is_executable st' m = is_executable st1 m) \<and>
        (\<forall>e. is_executable st1 m e \<longrightarrow> is_executable st' m e)"
    by simp
  from 1 2 show ?case by (auto simp add: set_executable_flags)
qed

lemma analyse_summary_flags:
  assumes "analyse_summary env info caller actuals lhs st = Some (Inr st')"
  shows "is_executable st' = is_executable st"
  using assms
  by (auto simp add: analyse_summary_def Let_def and_then_Inr on_an_Inr)

lemma analyse_function_body_frame:
  assumes f: "frames invoke orc" and c: "calls_avoid orc (cfg info) m"
    and n: "m \<noteq> info_name info"
    and a: "analyse_function_body env invoke fuel info caller actuals lhs st = Some (Inr st')"
  shows "is_executable st' m = is_executable st m"
proof -
  from a obtain st1 st2 where
    1: "on_an (forward_bind env info caller (get_entry_bb (cfg info)) actuals)
          (reset_edges (info_name info) (cfg info) st) = Some (Inr st1)"
    and 2: "worklist env invoke (info_name info) (cfg info) fuel [get_entry_edge (cfg info)] st1
              = Some (Inr st2)"
    and 3: "on_an (backward_bind env info caller (get_exit_bb (cfg info)) lhs) st2 = Some (Inr st')"
    by (auto simp add: analyse_function_body_def and_then_Inr)
  from on_an_flags [OF 1] n have "is_executable st1 m = is_executable st m"
    by (auto simp add: reset_edges_flags)
  moreover from worklist_frame [OF 2 f c] n have "is_executable st2 m = is_executable st1 m"
    by simp
  moreover from on_an_flags [OF 3] have "is_executable st' m = is_executable st2 m"
    by simp
  ultimately show ?thesis by simp
qed

lemma call_edgesI:
  "orc name = Some (User_method_info info) \<Longrightarrow>
   block (cfg info) b = Statement_block (Invoke lhs mi) \<Longrightarrow>
   method_name mi = METHOD_NAME callee \<Longrightarrow> (name, callee) \<in> call_edges orc"
  unfolding call_edges_def by blast

lemma calls_avoid_callee:
  assumes o: "orc g = Some (User_method_info ui)" and n: "(g, m) \<notin> (call_edges orc)\<^sup>*"
  shows "calls_avoid orc (cfg ui) m"
  unfolding calls_avoid_def
proof (intro allI impI)
  fix b lhs mi callee
  assume h: "block (cfg ui) b = Statement_block (Invoke lhs mi) \<and> method_name mi = METHOD_NAME callee"
  with o have e: "(g, callee) \<in> call_edges orc"
    by (blast intro: call_edgesI)
  show "(callee, m) \<notin> (call_edges orc)\<^sup>*"
  proof
    assume "(callee, m) \<in> (call_edges orc)\<^sup>*"
    with e have "(g, m) \<in> (call_edges orc)\<^sup>*"
      by (rule converse_rtrancl_into_rtrancl)
    with n show False by simp
  qed
qed

lemma invoke_method_frames:
  assumes w: "well_named orc"
  shows "frames (invoke_method env orc n) orc"
proof (induction n)
  case 0
  show ?case by (simp add: frames_def)
next
  case (Suc n)
  show ?case
    unfolding frames_def
  proof (intro allI impI)
    fix mi caller lhs and st st' :: "'a engine_state" and m
    assume h: "invoke_method env orc (Suc n) mi caller lhs st = Some (Inr st') \<and>
               (\<forall>callee. method_name mi = METHOD_NAME callee \<longrightarrow> (callee, m) \<notin> (call_edges orc)\<^sup>*)"
    from h obtain callee info where
      mn: "method_name mi = METHOD_NAME callee" and o: "orc callee = Some info"
      and r: "analyse_method_info env (invoke_method env orc n) n info caller
                (actual_parameters mi) lhs st = Some (Inr st')"
      by (auto simp add: get_possible_receivers_def and_then_Inr
            split: if_splits method_name.splits option.splits sum.splits)
    from h mn have nr: "(callee, m) \<notin> (call_edges orc)\<^sup>*" by simp
    show "is_executable st' m = is_executable st m"
    proof (cases info)
      case (User_method_info ui)
      from w o User_method_info have nm: "info_name ui = callee"
        unfolding well_named_def by blast
      from o User_method_info nr have cb: "calls_avoid orc (cfg ui) m"
        by (intro calls_avoid_callee [of orc callee]) simp_all
      from nm nr have ne: "m \<noteq> info_name ui" by auto
      from r User_method_info
      have "analyse_function_body env (invoke_method env orc n) n ui caller
              (actual_parameters mi) lhs st = Some (Inr st')"
        by (simp add: analyse_method_info_def)
      from analyse_function_body_frame [OF Suc cb ne this] show ?thesis .
    next
      case (Summary_method_info si)
      with r have "analyse_summary env si caller (actual_parameters mi) lhs st = Some (Inr st')"
        by (simp add: analyse_method_info_def)
      from analyse_summary_flags [OF this] show ?thesis by simp
    qed
  qed
qed

text \<open>The graph of a method that is not recursive invokes no method that reaches it.\<close>

lemma calls_avoid_self:
  assumes o: "orc f = Some (User_method_info info)" and n: "\<not> recursive orc f"
  shows "calls_avoid orc (cfg info) f"
  unfolding calls_avoid_def
proof (intro allI impI)
  fix b lhs mi callee
  assume h: "block (cfg info) b = Statement_block (Invoke lhs mi) \<and> method_name mi = METHOD_NAME callee"
  with o have e: "(f, callee) \<in> call_edges orc"
    by (blast intro: call_edgesI)
  show "(callee, f) \<notin> (call_edges orc)\<^sup>*"
  proof
    assume "(callee, f) \<in> (call_edges orc)\<^sup>*"
    with e have "(f, f) \<in> (call_edges orc)\<^sup>+"
      by (rule rtrancl_into_trancl2)
    with n show False by (simp add: recursive_def)
  qed
qed

lemma worklist_rounds_split:
  "worklist env invoke m g (k + n) wl st =
     and_then (worklist_rounds env invoke m g k wl st)
       (\<lambda>(wl', st'). worklist env invoke m g n wl' st')"
proof (induction env invoke m g k wl st rule: worklist_rounds.induct)
  case (1 env invoke m g wl st)
  show ?case by (simp add: and_then_def)
next
  case (2 env invoke m g k st)
  show ?case by (simp add: and_then_def)
next
  case (3 env invoke m g k e wl st)
  show ?case
  proof (cases "worklist_step env invoke m g e wl st")
    case None
    then show ?thesis by (simp add: and_then_def)
  next
    case (Some r)
    show ?thesis
    proof (cases r)
      case (Inl f)
      with Some show ?thesis by (simp add: and_then_def)
    next
      case (Inr p)
      obtain wl1 st1 where p: "p = (wl1, st1)" by (cases p)
      from "3.IH" [of wl1 st1] Some Inr p show ?thesis
        by (simp add: and_then_def)
    qed
  qed
qed

text \<open>
  C5, as amended. \<^verbatim>\<open>analyse_function\<close> first resets every edge of the function's graph
  to non-executable. When the function is not recursive (it is not reached from the
  methods it invokes; other methods of the program may be recursive) and methods are
  found under their own names, a round of the
  worklist loop changes the flags of the function's edges only by marking the popped edge
  executable, so an edge that is executable stays executable until the loop ends. (The
  graph of a function is shared by all its contexts: a recursive call analyses the same
  graph and resets its flags.)
\<close>

theorem executable_edges_stay_without_recursion:
  assumes "well_named orc" and "orc f = Some (User_method_info info)"
    and "\<not> recursive orc f"
  shows "(\<forall>e \<in> set (get_all_edges (cfg info)).
            \<not> is_executable (reset_edges f (cfg info) st0) f e) \<and>
         (\<forall>e wl st wl' st'.
            worklist_step env (invoke_method env orc n) f (cfg info) e wl st = Some (Inr (wl', st'))
            \<longrightarrow> is_executable st' f = (is_executable st f)(e := True)) \<and>
         (\<forall>fuel wl st st'.
            worklist env (invoke_method env orc n) f (cfg info) fuel wl st = Some (Inr st')
            \<longrightarrow> (\<forall>e. is_executable st f e \<longrightarrow> is_executable st' f e)) \<and>
         analyse_function env orc n info caller actuals lhs st0 =
           and_then
             (on_an (forward_bind env info caller (get_entry_bb (cfg info)) actuals)
                (reset_edges f (cfg info) st0))
             (\<lambda>st1.
                and_then
                  (worklist env (invoke_method env orc n) f (cfg info) n [get_entry_edge (cfg info)] st1)
                  (on_an (backward_bind env info caller (get_exit_bb (cfg info)) lhs)))"
proof -
  from assms(1,2) have nm: "info_name info = f"
    unfolding well_named_def by blast
  have cb: "calls_avoid orc (cfg info) f"
    by (rule calls_avoid_self [OF assms(2) assms(3)])
  have fr: "frames (invoke_method env orc n) orc"
    by (rule invoke_method_frames [OF assms(1)])
  have a: "\<forall>e \<in> set (get_all_edges (cfg info)).
            \<not> is_executable (reset_edges f (cfg info) st0) f e"
    by (simp add: reset_edges_flags)
  have b: "\<forall>e wl st wl' st'.
            worklist_step env (invoke_method env orc n) f (cfg info) e wl st = Some (Inr (wl', st'))
            \<longrightarrow> is_executable st' f = (is_executable st f)(e := True)"
  proof (intro allI impI)
    fix e wl and st st' :: "'a engine_state" and wl'
    assume "worklist_step env (invoke_method env orc n) f (cfg info) e wl st = Some (Inr (wl', st'))"
    from worklist_step_flags [OF fr cb this]
    show "is_executable st' f = (is_executable st f)(e := True)"
      by (simp add: set_executable_flags)
  qed
  have c: "\<forall>fuel wl st st'.
            worklist env (invoke_method env orc n) f (cfg info) fuel wl st = Some (Inr st')
            \<longrightarrow> (\<forall>e. is_executable st f e \<longrightarrow> is_executable st' f e)"
  proof (intro allI impI)
    fix fuel wl and st st' :: "'a engine_state" and e
    assume "worklist env (invoke_method env orc n) f (cfg info) fuel wl st = Some (Inr st')"
      and "is_executable st f e"
    with worklist_frame [OF _ fr cb] show "is_executable st' f e" by blast
  qed
  have d: "analyse_function env orc n info caller actuals lhs st0 =
           and_then
             (on_an (forward_bind env info caller (get_entry_bb (cfg info)) actuals)
                (reset_edges f (cfg info) st0))
             (\<lambda>st1.
                and_then
                  (worklist env (invoke_method env orc n) f (cfg info) n [get_entry_edge (cfg info)] st1)
                  (on_an (backward_bind env info caller (get_exit_bb (cfg info)) lhs)))"
    by (simp add: analyse_function_def analyse_function_body_def nm)
  from a b c d show ?thesis by (intro conjI)
qed

lemma mixed_methods_well_named: "well_named mixed_methods"
  by (auto simp add: well_named_def mixed_methods_def user_method_def split: if_splits)

lemma mixed_methods_call_f:
  assumes "(a, c) \<in> call_edges mixed_methods"
  shows "c = ''f''"
proof -
  from assms obtain info b lhs mi where
    o: "mixed_methods a = Some (User_method_info info)"
    and k: "block (cfg info) b = Statement_block (Invoke lhs mi)"
    and n: "method_name mi = METHOD_NAME c"
    unfolding call_edges_def by blast
  show ?thesis
  proof (cases "a = ''__MAIN__''")
    case True
    with o have "info = user_method ''__MAIN__'' main_cfg"
      by (simp add: mixed_methods_def)
    with k have "mi = call_f (BOOL True)"
      by (simp add: user_method_def main_cfg_def split: if_splits)
    with n show ?thesis by (simp add: call_f_def)
  next
    case False
    with o have "info = user_method ''f'' recursive_cfg"
      by (simp add: mixed_methods_def split: if_splits)
    with k have "mi = call_f (BOOL False)"
      by (simp add: user_method_def recursive_cfg_def split: if_splits)
    with n show ?thesis by (simp add: call_f_def)
  qed
qed

lemma main_not_recursive: "\<not> recursive mixed_methods ''__MAIN__''"
proof
  assume "recursive mixed_methods ''__MAIN__''"
  then have "(''__MAIN__'', ''__MAIN__'') \<in> (call_edges mixed_methods)\<^sup>+"
    by (simp add: recursive_def)
  then obtain z where "(z, ''__MAIN__'') \<in> call_edges mixed_methods"
    by (blast dest: tranclD2)
  from mixed_methods_call_f [OF this] show False by simp
qed

lemma f_recursive: "recursive mixed_methods ''f''"
proof -
  have "(''f'', ''f'') \<in> call_edges mixed_methods"
    by (rule call_edgesI [where info = "user_method ''f'' recursive_cfg" and b = 13
                            and lhs = None and mi = "call_f (BOOL False)"])
       (simp_all add: mixed_methods_def user_method_def recursive_cfg_def call_f_def)
  then show ?thesis by (simp add: recursive_def)
qed

theorem executable_edges_stay_without_recursion_witness:
  "well_named mixed_methods \<and>
   mixed_methods ''__MAIN__'' = Some (User_method_info (user_method ''__MAIN__'' main_cfg)) \<and>
   \<not> recursive mixed_methods ''__MAIN__'' \<and> recursive mixed_methods ''f'' \<and>
   \<not> is_executable (reset_edges ''__MAIN__'' main_cfg literal_engine_state) ''__MAIN__'' (Edge 0 0 1) \<and>
   (\<exists>wl' st'.
      worklist_step literal_env (invoke_method literal_env mixed_methods 7) ''__MAIN__'' main_cfg
        (Edge 0 0 1) [] literal_engine_state = Some (Inr (wl', st')) \<and>
      is_executable st' ''__MAIN__'' = (is_executable literal_engine_state ''__MAIN__'')(Edge 0 0 1 := True))"
proof -
  have o: "mixed_methods ''__MAIN__'' = Some (User_method_info (user_method ''__MAIN__'' main_cfg))"
    by (simp add: mixed_methods_def)
  note T = executable_edges_stay_without_recursion
             [OF mixed_methods_well_named o main_not_recursive,
              where env = literal_env and n = 7 and ?st0.0 = literal_engine_state]
  have g: "cfg (user_method ''__MAIN__'' main_cfg) = main_cfg"
    by (simp add: user_method_def)
  have "Edge 0 0 1 \<in> set (get_all_edges main_cfg)"
    by (simp add: main_cfg_def)
  with T [THEN conjunct1] g
  have 1: "\<not> is_executable (reset_edges ''__MAIN__'' main_cfg literal_engine_state) ''__MAIN__'' (Edge 0 0 1)"
    by simp
  have "returns (worklist_step literal_env (invoke_method literal_env mixed_methods 7) ''__MAIN__''
                   main_cfg (Edge 0 0 1) [] literal_engine_state)"
    by code_simp
  then obtain r where "worklist_step literal_env (invoke_method literal_env mixed_methods 7)
        ''__MAIN__'' main_cfg (Edge 0 0 1) [] literal_engine_state = Some (Inr r)"
    by (auto dest: returnsD)
  then obtain wl' st' where
    w: "worklist_step literal_env (invoke_method literal_env mixed_methods 7) ''__MAIN__'' main_cfg
          (Edge 0 0 1) [] literal_engine_state = Some (Inr (wl', st'))"
    by (cases r) simp
  from T [THEN conjunct2, THEN conjunct1, rule_format, of "Edge 0 0 1" "[]" literal_engine_state wl' st'] w g
  have "is_executable st' ''__MAIN__'' = (is_executable literal_engine_state ''__MAIN__'')(Edge 0 0 1 := True)"
    by simp
  with w have 2: "\<exists>wl' st'.
      worklist_step literal_env (invoke_method literal_env mixed_methods 7) ''__MAIN__'' main_cfg
        (Edge 0 0 1) [] literal_engine_state = Some (Inr (wl', st')) \<and>
      is_executable st' ''__MAIN__'' = (is_executable literal_engine_state ''__MAIN__'')(Edge 0 0 1 := True)"
    by blast
  from mixed_methods_well_named o main_not_recursive f_recursive 1 2 show ?thesis
    by (intro conjI)
qed

text \<open>
  C5 as stated fails for a recursive function. In the analysis of \<^verbatim>\<open>f (true)\<close> called from
  block 1, the edges of \<open>recursive_cfg\<close> are, in the order of \<open>get_all_edges\<close>: after two
  rounds of the worklist loop the edge from block 11 to block 12 is executable; the
  third round analyses block 13, whose call \<^verbatim>\<open>f (false)\<close> analyses the same graph and
  resets its edges, and after it that edge is not executable any more. The analysis
  returns, with the edge not executable.
\<close>

theorem executable_edge_reverts_counterexample:
  "flags_after ''f'' (get_all_edges recursive_cfg)
     (and_then
        (on_an (forward_bind literal_env (user_method ''f'' recursive_cfg) (Some 1) 10
                  (actual_parameters (call_f (BOOL True))))
           (reset_edges ''f'' recursive_cfg literal_engine_state))
        (worklist_rounds literal_env (invoke_method literal_env recursive_methods 6) ''f''
           recursive_cfg 2 [Edge 0 10 11]))
     = Some (Inr [True, True, False, False, False]) \<and>
   flags_after ''f'' (get_all_edges recursive_cfg)
     (and_then
        (on_an (forward_bind literal_env (user_method ''f'' recursive_cfg) (Some 1) 10
                  (actual_parameters (call_f (BOOL True))))
           (reset_edges ''f'' recursive_cfg literal_engine_state))
        (worklist_rounds literal_env (invoke_method literal_env recursive_methods 6) ''f''
           recursive_cfg 3 [Edge 0 10 11]))
     = Some (Inr [True, False, True, False, False]) \<and>
   flags_after ''f'' (get_all_edges recursive_cfg)
     (and_then
        (analyse_function literal_env recursive_methods 6 (user_method ''f'' recursive_cfg) (Some 1)
           (actual_parameters (call_f (BOOL True))) None literal_engine_state)
        (\<lambda>st. Some (Inr ([], st))))
     = Some (Inr [True, False, True, False, True])"
  by code_simp

section \<open>The passes of the driver\<close>








section \<open>The driver on the smallest program\<close>
















end
